theory Spec2Isabelle
  imports Complex_Main
begin

section \<open>Data model\<close>

text \<open>
  The particle filter of \<^verbatim>\<open>particle_filter.cpp\<close>. A C++ \<^verbatim>\<open>double\<close> (and the
  \<^verbatim>\<open>float\<close> coordinates of a map landmark) is modelled as a \<^typ>\<open>real\<close>. The
  constants that the code compares against keep their IEEE binary64 values, and the
  arithmetic that leads to the comparisons of the two association loops is rounded as
  binary64 rounds it (section \<open>Binary64 arithmetic\<close>); elsewhere the arithmetic is exact.
  A C++ \<^verbatim>\<open>int\<close> is an \<^typ>\<open>int\<close>; the only arithmetic on one is the loop counter and
  the wheel index, both bounded by \<^verbatim>\<open>num_particles\<close>.

  The fields of the three structs carry a suffix, since \<open>id\<close>, \<open>x\<close>, \<open>y\<close> are shared
  by \<^verbatim>\<open>Particle\<close> and \<^verbatim>\<open>LandmarkObs\<close>: \<open>_p\<close> for \<^verbatim>\<open>Particle\<close>, \<open>_o\<close> for
  \<^verbatim>\<open>LandmarkObs\<close>; \<^verbatim>\<open>Map::single_landmark_s\<close> has the source's own names.
\<close>

record Particle =
  id_p :: int
  x_p :: real
  y_p :: real
  theta_p :: real
  weight_p :: real
  associations_p :: "int list"
  sense_x_p :: "real list"
  sense_y_p :: "real list"

record LandmarkObs =
  id_o :: int
  x_o :: real
  y_o :: real

record single_landmark_s =
  id_i :: int
  x_f :: real
  y_f :: real

record ParticleFilter =
  num_particles :: int
  is_initialized :: bool
  particles :: "Particle list"

text \<open>
  Reading a \<^verbatim>\<open>std::vector\<close> with \<^verbatim>\<open>operator[]\<close> outside its bounds is undefined
  behaviour in C++; the model makes it an error value.
\<close>

datatype error = OutOfRange

definition vec_at :: "'a list \<Rightarrow> int \<Rightarrow> error + 'a" where
  "vec_at xs i = (if 0 \<le> i \<and> nat i < length xs then Inr (xs ! nat i) else Inl OutOfRange)"

text \<open>\<^verbatim>\<open>numeric_limits<double>::max()\<close> and \<^verbatim>\<open>numeric_limits<double>::min()\<close>: the
  largest finite and the smallest positive normalised binary64 number.\<close>

definition dbl_max :: real where
  "dbl_max = (2 ^ 53 - 1) * 2 ^ 971"

definition dbl_min :: real where
  "dbl_min = 1 / 2 ^ 1022"

section \<open>Binary64 arithmetic\<close>

text \<open>
  Rounding to the nearest binary64 number, ties to the even significand. The numbers
  with \<open>2\<^sup>k \<le> |x| < 2\<^sup>k\<^sup>+\<^sup>1\<close> are spaced \<open>2\<^sup>k\<^sup>-\<^sup>5\<^sup>2\<close> apart, and never closer than
  \<open>2\<^sup>-\<^sup>1\<^sup>0\<^sup>7\<^sup>4\<close>, the spacing of the subnormal numbers. The exponent is not bounded
  above here: a result beyond \<^verbatim>\<open>numeric_limits<double>::max()\<close> is at least \<open>2\<^sup>1\<^sup>0\<^sup>2\<^sup>4\<close>,
  and it stands for an infinity.
\<close>

definition round_even :: "real \<Rightarrow> int" where
  "round_even y =
     (let f = \<lfloor>y\<rfloor>; r = y - of_int f
      in if r < 1 / 2 then f else if 1 / 2 < r then f + 1 else if even f then f else f + 1)"

definition quantum :: "real \<Rightarrow> int" where
  "quantum x = max (\<lfloor>log 2 \<bar>x\<bar>\<rfloor> - 52) (- 1074)"

definition round64 :: "real \<Rightarrow> real" where
  "round64 x =
     (if x = 0 then 0
      else of_int (round_even (x / 2 powr of_int (quantum x))) * 2 powr of_int (quantum x))"

text \<open>
  A real of magnitude above \<^verbatim>\<open>numeric_limits<double>::max()\<close> stands for a \<^verbatim>\<open>double\<close>
  that is not a finite number, an infinity or a NaN. An operation on such an operand
  gives such a result again, as do an overflow and the sine or cosine of an infinity.
  Each operation rounds once; the compiler is taken not to fuse a multiplication with
  an addition, and the C library's \<^verbatim>\<open>sin\<close> and \<^verbatim>\<open>cos\<close> to round correctly.
\<close>

definition finite64 :: "real \<Rightarrow> bool" where
  "finite64 x \<longleftrightarrow> \<bar>x\<bar> \<le> dbl_max"

definition inf64 :: real where
  "inf64 = 2 ^ 1024"

definition fl_add :: "real \<Rightarrow> real \<Rightarrow> real" where
  "fl_add a b = (if finite64 a \<and> finite64 b then round64 (a + b) else inf64)"

definition fl_sub :: "real \<Rightarrow> real \<Rightarrow> real" where
  "fl_sub a b = (if finite64 a \<and> finite64 b then round64 (a - b) else inf64)"

definition fl_mul :: "real \<Rightarrow> real \<Rightarrow> real" where
  "fl_mul a b = (if finite64 a \<and> finite64 b then round64 (a * b) else inf64)"

definition fl_cos :: "real \<Rightarrow> real" where
  "fl_cos a = (if finite64 a then round64 (cos a) else inf64)"

definition fl_sin :: "real \<Rightarrow> real" where
  "fl_sin a = (if finite64 a then round64 (sin a) else inf64)"

section \<open>dataAssociation\<close>

text \<open>
  The loop over \<open>k\<close> of \<^verbatim>\<open>dataAssociation\<close>, for one observation: it runs through
  \<^verbatim>\<open>predicted\<close> in index order and carries \<^verbatim>\<open>minDist\<close> and \<^verbatim>\<open>mapId\<close>. The
  assignment \<^verbatim>\<open>observations[j].id = mapId\<close> is inside the loop body. \<^verbatim>\<open>minDist\<close> is
  never above \<^verbatim>\<open>numeric_limits<double>::max()\<close>, so a \<^verbatim>\<open>distance\<close> that is not a finite
  number is never below it.
\<close>

fun dataAssociation_k :: "LandmarkObs list \<Rightarrow> real \<Rightarrow> int \<Rightarrow> LandmarkObs \<Rightarrow> LandmarkObs" where
  "dataAssociation_k [] minDist mapId obs = obs"
| "dataAssociation_k (p # ps) minDist mapId obs =
     (let xDist = fl_sub (x_o obs) (x_o p);
          yDist = fl_sub (y_o obs) (y_o p);
          distance = fl_add (fl_mul xDist xDist) (fl_mul yDist yDist)
      in if distance < minDist
         then dataAssociation_k ps distance (id_o p) (obs\<lparr>id_o := id_o p\<rparr>)
         else dataAssociation_k ps minDist mapId (obs\<lparr>id_o := mapId\<rparr>))"

text \<open>The loop over \<open>j\<close>: every observation is updated in place, in index order.\<close>

primrec dataAssociation_j :: "LandmarkObs list \<Rightarrow> LandmarkObs list \<Rightarrow> LandmarkObs list" where
  "dataAssociation_j predicted [] = []"
| "dataAssociation_j predicted (obs # rest) =
     dataAssociation_k predicted dbl_max (- 1) obs # dataAssociation_j predicted rest"

definition dataAssociation :: "LandmarkObs list \<Rightarrow> LandmarkObs list \<Rightarrow> LandmarkObs list" where
  "dataAssociation predicted observations = dataAssociation_j predicted observations"

text \<open>
  The specification's words for the match: the squared Euclidean distance, as binary64
  computes it from the two differences, and the index of the first-encountered minimum
  of a sequence of landmarks.
\<close>

definition sq_dist :: "real \<Rightarrow> real \<Rightarrow> LandmarkObs \<Rightarrow> real" where
  "sq_dist ox oy p =
     fl_add (fl_mul (fl_sub ox (x_o p)) (fl_sub ox (x_o p)))
            (fl_mul (fl_sub oy (y_o p)) (fl_sub oy (y_o p)))"

text \<open>The same distance in exact arithmetic, to compare with.\<close>

definition sq_dist_exact :: "real \<Rightarrow> real \<Rightarrow> LandmarkObs \<Rightarrow> real" where
  "sq_dist_exact ox oy p = (ox - x_o p) * (ox - x_o p) + (oy - y_o p) * (oy - y_o p)"

definition first_min :: "LandmarkObs list \<Rightarrow> real \<Rightarrow> real \<Rightarrow> nat \<Rightarrow> bool" where
  "first_min ps ox oy k \<longleftrightarrow>
     k < length ps \<and>
     (\<forall>j < length ps. sq_dist ox oy (ps ! k) \<le> sq_dist ox oy (ps ! j)) \<and>
     (\<forall>j < k. sq_dist ox oy (ps ! k) < sq_dist ox oy (ps ! j))"

section \<open>Helpers of the absent header \<^verbatim>\<open>helper_functions.h\<close>\<close>

text \<open>Modelled from the spec: \<^verbatim>\<open>dist\<close> of \<^verbatim>\<open>helper_functions.h\<close>, which is not among the
  sources; the specification calls it the Euclidean distance of the particle's position
  and the landmark.\<close>

definition dist_h :: "real \<Rightarrow> real \<Rightarrow> real \<Rightarrow> real \<Rightarrow> real" where
  "dist_h x1 y1 x2 y2 = sqrt ((x2 - x1) * (x2 - x1) + (y2 - y1) * (y2 - y1))"

text \<open>Modelled from the spec: \<^verbatim>\<open>multiv_prob\<close> of \<^verbatim>\<open>helper_functions.h\<close>, which is not
  among the sources; the specification calls it the bivariate uncorrelated Gaussian
  likelihood of the observation, with the landmark's position as mean and the two
  standard deviations per axis.\<close>

definition multiv_prob :: "real \<Rightarrow> real \<Rightarrow> real \<Rightarrow> real \<Rightarrow> real \<Rightarrow> real \<Rightarrow> real" where
  "multiv_prob sig_x sig_y x_obs y_obs mu_x mu_y =
     (1 / (2 * pi * sig_x * sig_y)) *
     exp (- ((x_obs - mu_x) ^ 2 / (2 * sig_x ^ 2) + (y_obs - mu_y) ^ 2 / (2 * sig_y ^ 2)))"

section \<open>init\<close>

text \<open>
  The random engine \<^verbatim>\<open>gen\<close> is modelled by its outcomes: an operation that draws from
  a distribution takes the drawn values as an argument, so a theorem about the operation
  holds for every outcome of the draws. For \<^verbatim>\<open>init\<close> and \<^verbatim>\<open>prediction\<close> the
  argument gives, for the loop index \<open>i\<close>, the three values of \<^verbatim>\<open>dist_x(gen)\<close>,
  \<^verbatim>\<open>dist_y(gen)\<close>, \<^verbatim>\<open>dist_theta(gen)\<close> of that iteration. The mean and the standard
  deviations only parametrise the distributions, so they do not occur in the bodies.
\<close>

function init_i :: "(nat \<Rightarrow> real \<times> real \<times> real) \<Rightarrow> int \<Rightarrow> int \<Rightarrow> Particle list \<Rightarrow> Particle list" where
  "init_i draws i n ps =
     (if i < n
      then (let (dx, dy, dtheta) = draws (nat i);
                p = \<lparr>id_p = i, x_p = dx, y_p = dy, theta_p = dtheta, weight_p = 1,
                     associations_p = [], sense_x_p = [], sense_y_p = []\<rparr>
            in init_i draws (i + 1) n (ps @ [p]))
      else ps)"
  by pat_completeness auto
termination
  by (relation "measure (\<lambda>(draws, i, n, ps). nat (n - i))") auto

definition init ::
  "ParticleFilter \<Rightarrow> real \<Rightarrow> real \<Rightarrow> real \<Rightarrow> real \<times> real \<times> real \<Rightarrow>
   (nat \<Rightarrow> real \<times> real \<times> real) \<Rightarrow> ParticleFilter" where
  "init s x y theta std draws =
     (if is_initialized s then s
      else s\<lparr>num_particles := 100,
             particles := init_i draws 0 100 (particles s),
             is_initialized := True\<rparr>)"

text \<open>Modelled from the spec: the constructor of \<^verbatim>\<open>particle_filter.h\<close>, which is not
  among the sources; the filter starts uninitialised, and \<^verbatim>\<open>init\<close> seeds the
  population.\<close>

definition new_filter :: ParticleFilter where
  "new_filter = \<lparr>num_particles = 0, is_initialized = False, particles = []\<rparr>"

section \<open>prediction\<close>

text \<open>The body of the loop, for the particle \<open>p\<close> that \<^verbatim>\<open>particles[i]\<close> holds when the
  iteration starts: the motion model reads the heading of the copy \<open>p\<close>, then the three
  drawn values are added.\<close>

text \<open>The literal \<^verbatim>\<open>0.00001\<close> of the source: the binary64 number nearest to it, which is
  a little above \<open>1/100000\<close>.\<close>

definition yaw_rate_eps :: real where
  "yaw_rate_eps = 5902958103587057 / 2 ^ 69"

definition prediction_particle ::
  "real \<Rightarrow> real \<Rightarrow> real \<Rightarrow> real \<times> real \<times> real \<Rightarrow> Particle \<Rightarrow> Particle" where
  "prediction_particle delta_t velocity yaw_rate noise p =
     (let q = (if \<bar>yaw_rate\<bar> > yaw_rate_eps
               then p\<lparr>x_p := x_p p + (velocity / yaw_rate) *
                               (sin (theta_p p + yaw_rate * delta_t) - sin (theta_p p)),
                       y_p := y_p p + (velocity / yaw_rate) *
                               (cos (theta_p p) - cos (theta_p p + yaw_rate * delta_t)),
                       theta_p := theta_p p + yaw_rate * delta_t\<rparr>
               else p\<lparr>x_p := x_p p + velocity * delta_t * cos (theta_p p),
                       y_p := y_p p + velocity * delta_t * sin (theta_p p)\<rparr>);
          (nx, ny, ntheta) = noise
      in q\<lparr>x_p := x_p q + nx, y_p := y_p q + ny, theta_p := theta_p q + ntheta\<rparr>)"

function prediction_i ::
  "real \<Rightarrow> real \<Rightarrow> real \<Rightarrow> (nat \<Rightarrow> real \<times> real \<times> real) \<Rightarrow> int \<Rightarrow> int \<Rightarrow> Particle list \<Rightarrow>
   error + Particle list" where
  "prediction_i delta_t velocity yaw_rate noise i n ps =
     (if i < n
      then (case vec_at ps i of
              Inl e \<Rightarrow> Inl e
            | Inr p \<Rightarrow>
                prediction_i delta_t velocity yaw_rate noise (i + 1) n
                  (ps[nat i := prediction_particle delta_t velocity yaw_rate (noise (nat i)) p]))
      else Inr ps)"
  by pat_completeness auto
termination
  by (relation "measure (\<lambda>(delta_t, velocity, yaw_rate, noise, i, n, ps). nat (n - i))") auto

definition prediction ::
  "ParticleFilter \<Rightarrow> real \<Rightarrow> real \<times> real \<times> real \<Rightarrow> real \<Rightarrow> real \<Rightarrow>
   (nat \<Rightarrow> real \<times> real \<times> real) \<Rightarrow> error + ParticleFilter" where
  "prediction s delta_t std_pos velocity yaw_rate noise =
     (case prediction_i delta_t velocity yaw_rate noise 0 (num_particles s) (particles s) of
        Inl e \<Rightarrow> Inl e
      | Inr ps \<Rightarrow> Inr (s\<lparr>particles := ps\<rparr>))"

section \<open>updateWeights\<close>

record Map =
  landmark_list :: "single_landmark_s list"

text \<open>The loop over the map that collects \<^verbatim>\<open>predictions\<close>, the landmarks within the
  sensor range of the particle at \<open>(particleX, particleY)\<close>.\<close>

primrec updateWeights_predictions ::
  "single_landmark_s list \<Rightarrow> real \<Rightarrow> real \<Rightarrow> real \<Rightarrow> LandmarkObs list \<Rightarrow> LandmarkObs list" where
  "updateWeights_predictions [] particleX particleY sensor_range predictions = predictions"
| "updateWeights_predictions (l # ls) particleX particleY sensor_range predictions =
     (let l_id = id_i l;
          lx = x_f l;
          ly = y_f l;
          distance = dist_h particleX particleY lx ly
      in if distance \<le> sensor_range
         then updateWeights_predictions ls particleX particleY sensor_range
                (predictions @ [\<lparr>id_o = l_id, x_o = lx, y_o = ly\<rparr>])
         else updateWeights_predictions ls particleX particleY sensor_range predictions)"

text \<open>
  The data association loop over \<open>k\<close> inside \<^verbatim>\<open>updateWeights\<close>, for the transformed
  observation \<open>(obs_x, obs_y)\<close>; it carries \<^verbatim>\<open>minDist\<close>, \<^verbatim>\<open>mapId\<close>, \<^verbatim>\<open>p_x\<close> and
  \<^verbatim>\<open>p_y\<close>. The store \<^verbatim>\<open>obs.id = mapId\<close> goes to a local that is never read again, so
  \<^verbatim>\<open>mapId\<close> alone stands for it.
\<close>

fun updateWeights_k ::
  "LandmarkObs list \<Rightarrow> real \<Rightarrow> real \<Rightarrow> real \<times> int \<times> real \<times> real \<Rightarrow> real \<times> int \<times> real \<times> real" where
  "updateWeights_k [] obs_x obs_y (minDist, mapId, p_x, p_y) = (minDist, mapId, p_x, p_y)"
| "updateWeights_k (p # ps) obs_x obs_y (minDist, mapId, p_x, p_y) =
     (let xDist = fl_sub obs_x (x_o p);
          yDist = fl_sub obs_y (y_o p);
          distance = fl_add (fl_mul xDist xDist) (fl_mul yDist yDist)
      in if distance < minDist
         then updateWeights_k ps obs_x obs_y (distance, id_o p, x_o p, y_o p)
         else updateWeights_k ps obs_x obs_y (minDist, mapId, p_x, p_y))"

text \<open>The loop over the observations for one particle, carrying the particle's weight.
  \<^verbatim>\<open>std_landmark\<close> is the pair of the two array elements the code reads.\<close>

primrec updateWeights_j ::
  "LandmarkObs list \<Rightarrow> LandmarkObs list \<Rightarrow> real \<times> real \<Rightarrow> real \<Rightarrow> real \<Rightarrow> real \<Rightarrow> real \<Rightarrow> real" where
  "updateWeights_j [] predictions std_landmark particleX particleY theta weight = weight"
| "updateWeights_j (ob # obs) predictions std_landmark particleX particleY theta weight =
     (let x_obs = x_o ob;
          y_obs = y_o ob;
          obs_x = fl_sub (fl_add particleX (fl_mul (fl_cos theta) x_obs)) (fl_mul (fl_sin theta) y_obs);
          obs_y = fl_add (fl_add particleY (fl_mul (fl_sin theta) x_obs)) (fl_mul (fl_cos theta) y_obs);
          (minDist, mapId, p_x, p_y) = updateWeights_k predictions obs_x obs_y (dbl_max, - 1, 0, 0);
          w = multiv_prob (fst std_landmark) (snd std_landmark) obs_x obs_y p_x p_y
      in updateWeights_j obs predictions std_landmark particleX particleY theta (weight * w))"

text \<open>The body of the loop over the particles, for the particle \<open>p\<close> at \<^verbatim>\<open>particles[i]\<close>:
  the weight is set to 1 and then multiplied up over the observations.\<close>

definition updateWeights_particle ::
  "real \<Rightarrow> real \<times> real \<Rightarrow> LandmarkObs list \<Rightarrow> single_landmark_s list \<Rightarrow> Particle \<Rightarrow> Particle" where
  "updateWeights_particle sensor_range std_landmark observations landmarks p =
     (let particleX = x_p p;
          particleY = y_p p;
          theta = theta_p p;
          predictions = updateWeights_predictions landmarks particleX particleY sensor_range [];
          weight = updateWeights_j observations predictions std_landmark particleX particleY theta 1
      in p\<lparr>weight_p := weight\<rparr>)"

function updateWeights_i ::
  "real \<Rightarrow> real \<times> real \<Rightarrow> LandmarkObs list \<Rightarrow> single_landmark_s list \<Rightarrow> int \<Rightarrow> int \<Rightarrow>
   Particle list \<Rightarrow> error + Particle list" where
  "updateWeights_i sensor_range std_landmark observations landmarks i n ps =
     (if i < n
      then (case vec_at ps i of
              Inl e \<Rightarrow> Inl e
            | Inr p \<Rightarrow>
                updateWeights_i sensor_range std_landmark observations landmarks (i + 1) n
                  (ps[nat i := updateWeights_particle sensor_range std_landmark observations landmarks p]))
      else Inr ps)"
  by pat_completeness auto
termination
  by (relation "measure (\<lambda>(sensor_range, std_landmark, observations, landmarks, i, n, ps). nat (n - i))")
     auto

definition updateWeights ::
  "ParticleFilter \<Rightarrow> real \<Rightarrow> real \<times> real \<Rightarrow> LandmarkObs list \<Rightarrow> Map \<Rightarrow> error + ParticleFilter" where
  "updateWeights s sensor_range std_landmark observations map_landmarks =
     (let landmarks = landmark_list map_landmarks
      in case updateWeights_i sensor_range std_landmark observations landmarks 0
                (num_particles s) (particles s) of
           Inl e \<Rightarrow> Inl e
         | Inr ps \<Rightarrow> Inr (s\<lparr>particles := ps\<rparr>))"

section \<open>resample\<close>

text \<open>The first loop: the vector \<^verbatim>\<open>w\<close> of the weights and \<^verbatim>\<open>maxWeight\<close>, which starts
  at \<^verbatim>\<open>numeric_limits<double>::min()\<close>.\<close>

function resample_w ::
  "int \<Rightarrow> int \<Rightarrow> Particle list \<Rightarrow> real list \<Rightarrow> real \<Rightarrow> error + real list \<times> real" where
  "resample_w i n ps w maxWeight =
     (if i < n
      then (case vec_at ps i of
              Inl e \<Rightarrow> Inl e
            | Inr p \<Rightarrow>
                resample_w (i + 1) n ps (w @ [weight_p p])
                  (if maxWeight < weight_p p then weight_p p else maxWeight))
      else Inr (w, maxWeight))"
  by pat_completeness auto
termination
  by (relation "measure (\<lambda>(i, n, ps, w, maxWeight). nat (n - i))") auto

text \<open>
  The \<^verbatim>\<open>while\<close> loop of the resampling wheel. Nothing bounds the number of its
  iterations, so it is a partial function: \<open>None\<close> is the loop that never ends. The
  index is non-negative wherever \<^verbatim>\<open>w[index]\<close> has been read, so \<open>mod\<close> is the \<^verbatim>\<open>%\<close>
  of C++ there.
\<close>

partial_function (option) resample_wheel ::
  "real list \<Rightarrow> int \<Rightarrow> real \<Rightarrow> int \<Rightarrow> (error + real \<times> int) option" where
  "resample_wheel w n beta index =
     (if \<not> (0 \<le> index \<and> nat index < length w) then Some (Inl OutOfRange)
      else if beta > w ! nat index
           then resample_wheel w n (beta - w ! nat index) ((index + 1) mod n)
           else Some (Inr (beta, index)))"

text \<open>The second loop. \<open>draws i\<close> is the value of \<^verbatim>\<open>dist_w(gen)\<close> in iteration \<open>i\<close>, and
  \<open>index\<close> starts at the value of \<^verbatim>\<open>dist_i(gen)\<close>.\<close>

function resample_i ::
  "Particle list \<Rightarrow> real list \<Rightarrow> (nat \<Rightarrow> real) \<Rightarrow> int \<Rightarrow> int \<Rightarrow> real \<Rightarrow> int \<Rightarrow> Particle list \<Rightarrow>
   (error + Particle list) option" where
  "resample_i ps w draws i n beta index resample_ps =
     (if i < n
      then (case resample_wheel w n (beta + 2 * draws (nat i)) index of
              None \<Rightarrow> None
            | Some (Inl e) \<Rightarrow> Some (Inl e)
            | Some (Inr (beta', index')) \<Rightarrow>
                (case vec_at ps index' of
                   Inl e \<Rightarrow> Some (Inl e)
                 | Inr p \<Rightarrow> resample_i ps w draws (i + 1) n beta' index' (resample_ps @ [p])))
      else Some (Inr resample_ps))"
  by pat_completeness auto
termination
  by (relation "measure (\<lambda>(ps, w, draws, i, n, beta, index, resample_ps). nat (n - i))") auto

definition resample :: "ParticleFilter \<Rightarrow> int \<Rightarrow> (nat \<Rightarrow> real) \<Rightarrow> (error + ParticleFilter) option" where
  "resample s index0 draws =
     (case resample_w 0 (num_particles s) (particles s) [] dbl_min of
        Inl e \<Rightarrow> Some (Inl e)
      | Inr (w, maxWeight) \<Rightarrow>
          (case resample_i (particles s) w draws 0 (num_particles s) 0 index0 [] of
             None \<Rightarrow> None
           | Some (Inl e) \<Rightarrow> Some (Inl e)
           | Some (Inr resample_ps) \<Rightarrow> Some (Inr (s\<lparr>particles := resample_ps\<rparr>))))"

text \<open>The range of \<^verbatim>\<open>dist_w\<close>, a \<^verbatim>\<open>uniform_real_distribution\<close> on \<open>[0, maxWeight)\<close>:
  \<^verbatim>\<open>maxWeight\<close> as the first loop leaves it.\<close>

definition maxWeight_of :: "ParticleFilter \<Rightarrow> real" where
  "maxWeight_of s =
     (case resample_w 0 (num_particles s) (particles s) [] dbl_min of
        Inl e \<Rightarrow> dbl_min
      | Inr (w, maxWeight) \<Rightarrow> maxWeight)"

section \<open>SetAssociations, getAssociations, getSenseCoord\<close>

definition SetAssociations :: "Particle \<Rightarrow> int list \<Rightarrow> real list \<Rightarrow> real list \<Rightarrow> Particle" where
  "SetAssociations particle associations sense_x sense_y =
     particle\<lparr>associations_p := associations, sense_x_p := sense_x, sense_y_p := sense_y\<rparr>"

text \<open>The standard library's \<^verbatim>\<open>operator<<\<close> for an \<^verbatim>\<open>int\<close> with the default
  formatting: the decimal digits, after a minus sign for a negative number.\<close>

definition digit_char :: "nat \<Rightarrow> char" where
  "digit_char d = ''0123456789'' ! d"

function show_nat :: "nat \<Rightarrow> string" where
  "show_nat n = (if n < 10 then [digit_char n] else show_nat (n div 10) @ [digit_char (n mod 10)])"
  by pat_completeness auto
termination
  by (relation "measure id") auto

definition show_int :: "int \<Rightarrow> string" where
  "show_int i = (if i < 0 then CHR ''-'' # show_nat (nat (- i)) else show_nat (nat i))"

text \<open>
  \<^verbatim>\<open>s.substr(0, s.length()-1)\<close>: the length is a \<^verbatim>\<open>size_t\<close>, so for the empty string
  \<^verbatim>\<open>s.length()-1\<close> wraps around to the largest \<^verbatim>\<open>size_t\<close>; \<^verbatim>\<open>substr\<close> takes at most
  the characters that are there.
\<close>

definition size_max :: nat where
  "size_max = 2 ^ 64 - 1"

definition substr :: "string \<Rightarrow> nat \<Rightarrow> nat \<Rightarrow> string" where
  "substr s pos len = take len (drop pos s)"

definition trim_last :: "string \<Rightarrow> string" where
  "trim_last s = substr s 0 (if length s = 0 then size_max else length s - 1)"

definition getAssociations :: "Particle \<Rightarrow> string" where
  "getAssociations best =
     (let v = associations_p best;
          s = concat (map (\<lambda>a. show_int a @ '' '') v)
      in trim_last s)"

text \<open>
  \<^verbatim>\<open>getSenseCoord\<close> writes through an \<^verbatim>\<open>ostream_iterator<float>\<close>: each \<^verbatim>\<open>double\<close> is
  converted to \<^verbatim>\<open>float\<close> and printed by the standard library. The digits that come out
  are those of a floating-point number, so the printing is the parameter \<open>show_float\<close>.
\<close>

definition getSenseCoord :: "(real \<Rightarrow> string) \<Rightarrow> Particle \<Rightarrow> string \<Rightarrow> string" where
  "getSenseCoord show_float best coord =
     (let v = (if coord = ''X'' then sense_x_p best else sense_y_p best);
          s = concat (map (\<lambda>a. show_float a @ '' '') v)
      in trim_last s)"

text \<open>The specification's words for the rendering: the elements as text, separated by
  single spaces.\<close>

fun join_spaces :: "string list \<Rightarrow> string" where
  "join_spaces [] = []"
| "join_spaces [t] = t"
| "join_spaces (t # u # ts) = t @ '' '' @ join_spaces (u # ts)"

section \<open>The specification's words for the weighting pass\<close>

text \<open>The candidate landmarks of a particle at \<open>(px, py)\<close>: the map landmarks whose
  Euclidean distance to it is at most the sensor range, in the order of the map.\<close>

definition candidates :: "single_landmark_s list \<Rightarrow> real \<Rightarrow> real \<Rightarrow> real \<Rightarrow> LandmarkObs list" where
  "candidates landmarks px py sensor_range =
     map (\<lambda>l. \<lparr>id_o = id_i l, x_o = x_f l, y_o = y_f l\<rparr>)
       (filter (\<lambda>l. dist_h px py (x_f l) (y_f l) \<le> sensor_range) landmarks)"

text \<open>The observation in the map frame: rotated by the particle's heading and
  translated by the particle's position, \<open>x' = p\<^sub>x + cos \<theta> \<cdot> x - sin \<theta> \<cdot> y\<close> and
  \<open>y' = p\<^sub>y + sin \<theta> \<cdot> x + cos \<theta> \<cdot> y\<close>, each operation from left to right in binary64.\<close>

definition to_map :: "Particle \<Rightarrow> LandmarkObs \<Rightarrow> real \<times> real" where
  "to_map p ob =
     (fl_sub (fl_add (x_p p) (fl_mul (fl_cos (theta_p p)) (x_o ob)))
             (fl_mul (fl_sin (theta_p p)) (y_o ob)),
      fl_add (fl_add (y_p p) (fl_mul (fl_sin (theta_p p)) (x_o ob)))
             (fl_mul (fl_cos (theta_p p)) (y_o ob)))"

section \<open>The filter states a driver can reach\<close>

text \<open>A driver constructs the filter, calls \<^verbatim>\<open>init\<close>, and then calls the operations in
  any order, each with any arguments and any outcome of the random draws. A call counts
  when it returns without undefined behaviour.\<close>

inductive reachable :: "ParticleFilter \<Rightarrow> bool" where
  reach_init: "reachable (init new_filter x y theta std draws)"
| reach_init_again: "reachable s \<Longrightarrow> reachable (init s x y theta std draws)"
| reach_prediction:
    "reachable s \<Longrightarrow> prediction s delta_t std_pos velocity yaw_rate noise = Inr s' \<Longrightarrow> reachable s'"
| reach_updateWeights:
    "reachable s \<Longrightarrow> updateWeights s sensor_range std_landmark observations map_landmarks = Inr s' \<Longrightarrow>
     reachable s'"
| reach_resample:
    "reachable s \<Longrightarrow> resample s index0 wdraws = Some (Inr s') \<Longrightarrow> reachable s'"

section \<open>Concrete states and a measure for the proofs\<close>

text \<open>Two populations of a hundred equal particles at the origin, of weight 0 and of
  weight 1, for the examples.\<close>

definition zero_particle :: Particle where
  "zero_particle = \<lparr>id_p = 0, x_p = 0, y_p = 0, theta_p = 0, weight_p = 0,
                     associations_p = [], sense_x_p = [], sense_y_p = []\<rparr>"

definition unit_particle :: Particle where
  "unit_particle = \<lparr>id_p = 0, x_p = 0, y_p = 0, theta_p = 0, weight_p = 1,
                     associations_p = [], sense_x_p = [], sense_y_p = []\<rparr>"

definition unit_filter :: ParticleFilter where
  "unit_filter = \<lparr>num_particles = 100, is_initialized = True, particles = replicate 100 unit_particle\<rparr>"

text \<open>
  The measure that decreases with every iteration of the wheel when the weight \<open>c\<close> at
  index \<open>m\<close> is positive and no weight is negative: the number of full turns that
  \<open>beta\<close> still pays for, and the steps from \<open>index\<close> up to \<open>m\<close>.
\<close>

definition wheel_measure :: "real \<Rightarrow> int \<Rightarrow> int \<Rightarrow> real \<Rightarrow> int \<Rightarrow> nat" where
  "wheel_measure c m n beta index =
     nat \<lceil>beta / c\<rceil> * nat n + nat (if index \<le> m then m - index else m - index + n)"

text \<open>The equations of the index loops are unfolded by hand, one iteration at a time.\<close>

declare init_i.simps [simp del] prediction_i.simps [simp del] updateWeights_i.simps [simp del]
  resample_w.simps [simp del] resample_i.simps [simp del] show_nat.simps [simp del]

section \<open>Vector reads and the example states\<close>

lemma vec_at_in_range: "0 \<le> i \<Longrightarrow> nat i < length xs \<Longrightarrow> vec_at xs i = Inr (xs ! nat i)"
  by (simp add: vec_at_def)

lemma unit_filter_inv:
  "int (length (particles unit_filter)) = num_particles unit_filter"
  by (simp add: unit_filter_def)

lemma unit_filter_nth: "k < 100 \<Longrightarrow> particles unit_filter ! k = unit_particle"
  by (simp add: unit_filter_def)

section \<open>Properties of the binary64 operations\<close>

text \<open>The rounding leaves a number of at most 53 significant bits as it is, and it can be
  computed once the binary exponent of its argument is known.\<close>

lemma round_even_of_int: "round_even (of_int n) = n"
  by (simp add: round_even_def)

lemma floor_log2: 
  assumes "2 powr of_int k \<le> \<bar>x\<bar>" "\<bar>x\<bar> < 2 powr of_int (k + 1)"
  shows "\<lfloor>log 2 \<bar>x\<bar>\<rfloor> = k"
proof -
  have pos: "0 < \<bar>x\<bar>" using assms(1) by (smt (verit) powr_gt_zero)
  have "of_int k \<le> log 2 \<bar>x\<bar>" using assms(1) pos by (simp add: le_log_iff)
  moreover have "log 2 \<bar>x\<bar> < of_int k + 1" using assms(2) pos by (simp add: log_less_iff)
  ultimately show ?thesis by (simp add: floor_unique)
qed

lemma quantum_eval:
  assumes "2 powr of_int k \<le> \<bar>x\<bar>" "\<bar>x\<bar> < 2 powr of_int (k + 1)"
  shows "quantum x = max (k - 52) (- 1074)"
  using floor_log2 [OF assms] by (simp add: quantum_def)

lemma round64_eval:
  assumes "2 powr of_int k \<le> \<bar>x\<bar>" "\<bar>x\<bar> < 2 powr of_int (k + 1)"
  shows "round64 x = of_int (round_even (x / 2 powr of_int (max (k - 52) (- 1074)))) *
                     2 powr of_int (max (k - 52) (- 1074))"
proof -
  have "x \<noteq> 0" using assms(1) by (smt (verit) powr_gt_zero)
  then show ?thesis by (simp add: round64_def quantum_eval [OF assms])
qed

lemma quantum_le:
  assumes x: "x = of_int m * 2 powr of_int e" and m: "m \<noteq> 0" "\<bar>m\<bar> < 2 ^ 53" and e: "- 1074 \<le> e"
  shows "quantum x \<le> e"
proof -
  have ax: "\<bar>x\<bar> = of_int \<bar>m\<bar> * 2 powr of_int e" by (simp add: x abs_mult)
  have pos: "0 < \<bar>x\<bar>" using m(1) by (simp add: ax)
  have "of_int \<bar>m\<bar> < (2::real) ^ 53" using m(2) by (metis of_int_less_numeral_power_cancel_iff)
  then have "\<bar>x\<bar> < 2 ^ 53 * 2 powr of_int e" by (simp add: ax)
  also have "\<dots> = 2 powr (53 + of_int e)" by (simp add: powr_add)
  finally have "log 2 \<bar>x\<bar> < 53 + of_int e" using pos by (simp add: log_less_iff)
  then have "\<lfloor>log 2 \<bar>x\<bar>\<rfloor> < 53 + e" by linarith
  then show ?thesis using e by (simp add: quantum_def)
qed

lemma round64_exact:
  assumes x: "x = of_int m * 2 powr of_int e" and m: "\<bar>m\<bar> < 2 ^ 53" and e: "- 1074 \<le> e"
  shows "round64 x = x"
proof (cases "m = 0")
  case True
  then show ?thesis by (simp add: x round64_def)
next
  case False
  have q: "quantum x \<le> e" by (rule quantum_le [OF x False m e])
  define d where "d = nat (e - quantum x)"
  define Q :: real where "Q = 2 powr of_int (quantum x)"
  have Q: "0 < Q" by (simp add: Q_def)
  have e': "real_of_int e = of_int (quantum x) + real d" using q by (simp add: d_def)
  have "(2::real) powr of_int e = 2 ^ d * Q"
    unfolding e' Q_def by (simp add: powr_add powr_realpow)
  then have xq: "x = of_int (m * 2 ^ d) * Q" by (simp add: x)
  then have "x / Q = of_int (m * 2 ^ d)" using Q by simp
  then have "round_even (x / Q) = m * 2 ^ d"
    by (simp only: round_even_of_int)
  moreover have "x \<noteq> 0" using False by (simp add: x)
  ultimately have "round64 x = of_int (m * 2 ^ d) * Q"
    by (simp add: round64_def Q_def)
  then show ?thesis using xq by simp
qed


lemma round_even_near: "\<bar>of_int (round_even y) - y\<bar> \<le> 1 / 2"
  unfolding round_even_def Let_def by (auto simp: abs_if) linarith+

lemma round64_0: "round64 0 = 0"
  by (simp add: round64_def)

lemma round64_of_int: "\<bar>n\<bar> < 2 ^ 53 \<Longrightarrow> round64 (of_int n) = of_int n"
  using round64_exact [of "of_int n" n 0] by simp

lemma round64_pow2: "round64 (2 ^ n) = 2 ^ n"
  using round64_exact [of "2 ^ n" 1 "int n"] by (simp add: powr_realpow)

lemma round64_inv_pow2: "n \<le> 1074 \<Longrightarrow> round64 (1 / 2 ^ n) = 1 / 2 ^ n"
  using round64_exact [of "1 / 2 ^ n" 1 "- int n"] by (simp add: powr_minus powr_realpow divide_inverse)

lemma round64_1: "round64 1 = 1"
  using round64_of_int [of 1] by simp

lemma round64_numeral: "\<bar>numeral k :: int\<bar> < 2 ^ 53 \<Longrightarrow> round64 (numeral k) = numeral k"
  using round64_of_int [of "numeral k"] by simp

lemma round64_neg_numeral:
  "\<bar>numeral k :: int\<bar> < 2 ^ 53 \<Longrightarrow> round64 (- numeral k) = - numeral k"
  using round64_of_int [of "- numeral k"] by simp

lemma round64_near_tie: "round64 (1 + 1 / 2 ^ 60) = 1"
proof -
  have "round64 (1 + 1 / 2 ^ 60) =
        of_int (round_even ((1 + 1 / 2 ^ 60) / 2 powr of_int (max (0 - 52) (- 1074)))) *
        2 powr of_int (max (0 - 52) (- 1074))"
    by (rule round64_eval) simp_all
  also have "\<dots> = 1"
    by (simp add: round_even_def powr_neg_numeral)
  finally show ?thesis .
qed

lemma finite64_small: "\<bar>x\<bar> \<le> 2 ^ 53 \<Longrightarrow> finite64 x"
proof -
  assume "\<bar>x\<bar> \<le> 2 ^ 53"
  moreover have "(2::real) ^ 53 \<le> dbl_max" by (simp add: dbl_max_def)
  ultimately show ?thesis unfolding finite64_def by linarith
qed

lemma not_finite64_inf64: "\<not> finite64 inf64" and inf64_not_less: "\<not> inf64 < dbl_max"
  by (simp_all add: finite64_def inf64_def dbl_max_def)

lemma sq_dist_near_tie:
  "sq_dist 0 0 \<lparr>id_o = a, x_o = 1, y_o = 1 / 2 ^ 30\<rparr> = 1"
  "sq_dist 0 0 \<lparr>id_o = b, x_o = 0, y_o = 1\<rparr> = 1"
proof -
  have x: "round64 (- 1) = - 1"
    using round64_of_int [of "- 1"] by simp
  have y: "round64 (- (1 / 2 ^ 30)) = - (1 / 2 ^ 30)"
    using round64_exact [of "- (1 / 2 ^ 30)" "- 1" "- 30"] by (simp add: powr_neg_numeral)
  have yy: "round64 (1 / 2 ^ 60) = 1 / 2 ^ 60"
    by (rule round64_inv_pow2) simp
  have f: "finite64 0" "finite64 1" "finite64 (- 1)" "finite64 (1 / 2 ^ 30)"
    "finite64 (- (1 / 2 ^ 30))" "finite64 (1 / 2 ^ 60)"
    by (simp_all add: finite64_def dbl_max_def)
  have sx: "fl_sub 0 1 = - 1" using f x by (simp add: fl_sub_def)
  have sy: "fl_sub 0 (1 / 2 ^ 30) = - (1 / 2 ^ 30)" using f y by (simp add: fl_sub_def)
  have s0: "fl_sub 0 0 = 0" using f by (simp add: fl_sub_def round64_0)
  have mx: "fl_mul (- 1) (- 1) = 1" using f by (simp add: fl_mul_def round64_1)
  have my: "fl_mul (- (1 / 2 ^ 30)) (- (1 / 2 ^ 30)) = 1 / 2 ^ 60"
    using f yy by (simp add: fl_mul_def)
  have m0: "fl_mul 0 0 = 0" using f by (simp add: fl_mul_def round64_0)
  have a1: "fl_add 1 (1 / 2 ^ 60) = 1" using f round64_near_tie by (simp add: fl_add_def)
  have a2: "fl_add 0 1 = 1" using f by (simp add: fl_add_def round64_1)
  show "sq_dist 0 0 \<lparr>id_o = a, x_o = 1, y_o = 1 / 2 ^ 30\<rparr> = 1"
    by (simp only: sq_dist_def LandmarkObs.select_convs sx sy mx my a1)
  show "sq_dist 0 0 \<lparr>id_o = b, x_o = 0, y_o = 1\<rparr> = 1"
    by (simp only: sq_dist_def LandmarkObs.select_convs sx s0 mx m0 a2)
qed

section \<open>Properties of dataAssociation\<close>

lemma dataAssociation_k_coords:
  "x_o (dataAssociation_k ps minDist mapId obs) = x_o obs \<and>
   y_o (dataAssociation_k ps minDist mapId obs) = y_o obs"
  by (induction ps arbitrary: minDist mapId obs) (simp_all add: Let_def)

lemma dataAssociation_k_none:
  "\<forall>p \<in> set ps. \<not> sq_dist (x_o obs) (y_o obs) p < minDist \<Longrightarrow>
   id_o (dataAssociation_k ps minDist mapId obs) = (if ps = [] then id_o obs else mapId)"
proof (induction ps arbitrary: obs)
  case Nil
  then show ?case by simp
next
  case (Cons p ps)
  have far: "\<not> sq_dist (x_o obs) (y_o obs) p < minDist"
    using Cons.prems by simp
  have rest: "\<forall>q \<in> set ps. \<not> sq_dist (x_o (obs\<lparr>id_o := mapId\<rparr>)) (y_o (obs\<lparr>id_o := mapId\<rparr>)) q < minDist"
    using Cons.prems by simp
  show ?case
    using far Cons.IH [OF rest] by (simp add: Let_def sq_dist_def)
qed

lemma first_min_Cons_0:
  "\<forall>q \<in> set ps. \<not> sq_dist ox oy q < sq_dist ox oy p \<Longrightarrow> first_min (p # ps) ox oy 0"
  unfolding first_min_def
  by (auto simp: nth_Cons' not_less)

lemma first_min_Cons_Suc:
  "first_min ps ox oy k \<Longrightarrow> sq_dist ox oy (ps ! k) < sq_dist ox oy p \<Longrightarrow>
   first_min (p # ps) ox oy (Suc k)"
  unfolding first_min_def
  by (auto simp: nth_Cons' less_Suc_eq_0_disj)

lemma first_min_le:
  "first_min ps ox oy k \<Longrightarrow> q \<in> set ps \<Longrightarrow> sq_dist ox oy (ps ! k) \<le> sq_dist ox oy q"
  unfolding first_min_def by (auto simp: in_set_conv_nth)


lemma dataAssociation_k_some:
  "\<exists>p \<in> set ps. sq_dist (x_o obs) (y_o obs) p < minDist \<Longrightarrow>
   \<exists>k. first_min ps (x_o obs) (y_o obs) k \<and>
       id_o (dataAssociation_k ps minDist mapId obs) = id_o (ps ! k)"
proof (induction ps arbitrary: minDist mapId obs)
  case Nil
  then show ?case by simp
next
  case (Cons p ps)
  let ?ox = "x_o obs" and ?oy = "y_o obs"
  let ?d = "sq_dist ?ox ?oy p"
  show ?case
  proof (cases "?d < minDist")
    case near: True
    let ?obs' = "obs\<lparr>id_o := id_o p\<rparr>"
    have step: "dataAssociation_k (p # ps) minDist mapId obs = dataAssociation_k ps ?d (id_o p) ?obs'"
      using near by (simp add: Let_def sq_dist_def)
    show ?thesis
    proof (cases "\<exists>q \<in> set ps. sq_dist ?ox ?oy q < ?d")
      case True
      then have "\<exists>q \<in> set ps. sq_dist (x_o ?obs') (y_o ?obs') q < ?d" by simp
      from Cons.IH [OF this] obtain k where
        k: "first_min ps ?ox ?oy k" "id_o (dataAssociation_k ps ?d (id_o p) ?obs') = id_o (ps ! k)"
        by auto
      from True obtain q where q: "q \<in> set ps" "sq_dist ?ox ?oy q < ?d" by auto
      have "sq_dist ?ox ?oy (ps ! k) < ?d"
        using first_min_le [OF k(1) q(1)] q(2) by simp
      then have "first_min (p # ps) ?ox ?oy (Suc k)"
        using k(1) by (rule first_min_Cons_Suc [rotated])
      then show ?thesis using k(2) step by (intro exI [of _ "Suc k"]) simp
    next
      case False
      then have none: "\<forall>q \<in> set ps. \<not> sq_dist (x_o ?obs') (y_o ?obs') q < ?d" by simp
      have "id_o (dataAssociation_k ps ?d (id_o p) ?obs') = id_o p"
        using dataAssociation_k_none [OF none, of "id_o p"] by simp
      moreover have "first_min (p # ps) ?ox ?oy 0"
        using False by (intro first_min_Cons_0) simp
      ultimately show ?thesis using step by (intro exI [of _ 0]) simp
    qed
  next
    case far: False
    let ?obs' = "obs\<lparr>id_o := mapId\<rparr>"
    have step: "dataAssociation_k (p # ps) minDist mapId obs = dataAssociation_k ps minDist mapId ?obs'"
      using far by (simp add: Let_def sq_dist_def)
    from Cons.prems far obtain q where q: "q \<in> set ps" "sq_dist ?ox ?oy q < minDist" by auto
    then have "\<exists>q \<in> set ps. sq_dist (x_o ?obs') (y_o ?obs') q < minDist" by auto
    from Cons.IH [OF this] obtain k where
      k: "first_min ps ?ox ?oy k" "id_o (dataAssociation_k ps minDist mapId ?obs') = id_o (ps ! k)"
      by auto
    have "sq_dist ?ox ?oy (ps ! k) < ?d"
      using first_min_le [OF k(1) q(1)] q(2) far by simp
    then have "first_min (p # ps) ?ox ?oy (Suc k)"
      using k(1) by (rule first_min_Cons_Suc [rotated])
    then show ?thesis using k(2) step by (intro exI [of _ "Suc k"]) simp
  qed
qed

lemma dataAssociation_j_length: "length (dataAssociation_j predicted obs) = length obs"
  by (induction obs) simp_all

lemma dataAssociation_j_nth:
  "j < length obs \<Longrightarrow>
   dataAssociation_j predicted obs ! j = dataAssociation_k predicted dbl_max (- 1) (obs ! j)"
  by (induction obs arbitrary: j) (simp_all add: nth_Cons')

text \<open>
  What the loop does: it keeps the number and the coordinates of the observations. The
  observation at index \<open>j\<close> keeps its id when \<^verbatim>\<open>predicted\<close> is empty; it gets the id of
  the predicted landmark at the first index that minimises the computed squared distance
  when that minimum is below \<^verbatim>\<open>numeric_limits<double>::max()\<close>; and it gets \<open>-1\<close> when
  \<^verbatim>\<open>predicted\<close> is not empty and no computed squared distance is below that bound.
\<close>

lemma dataAssociation_computed_nearest:
  assumes "j < length observations"
  shows "length (dataAssociation predicted observations) = length observations \<and>
         x_o (dataAssociation predicted observations ! j) = x_o (observations ! j) \<and>
         y_o (dataAssociation predicted observations ! j) = y_o (observations ! j) \<and>
         (predicted = [] \<longrightarrow>
            id_o (dataAssociation predicted observations ! j) = id_o (observations ! j)) \<and>
         ((\<exists>p \<in> set predicted. sq_dist (x_o (observations ! j)) (y_o (observations ! j)) p < dbl_max) \<longrightarrow>
            (\<exists>k. first_min predicted (x_o (observations ! j)) (y_o (observations ! j)) k \<and>
                 id_o (dataAssociation predicted observations ! j) = id_o (predicted ! k))) \<and>
         (predicted \<noteq> [] \<and>
          (\<forall>p \<in> set predicted. dbl_max \<le> sq_dist (x_o (observations ! j)) (y_o (observations ! j)) p) \<longrightarrow>
            id_o (dataAssociation predicted observations ! j) = - 1)"
proof -
  let ?obs = "observations ! j"
  have nth: "dataAssociation predicted observations ! j = dataAssociation_k predicted dbl_max (- 1) ?obs"
    using assms by (simp add: dataAssociation_def dataAssociation_j_nth)
  have len: "length (dataAssociation predicted observations) = length observations"
    by (simp add: dataAssociation_def dataAssociation_j_length)
  have empty: "predicted = [] \<longrightarrow> id_o (dataAssociation predicted observations ! j) = id_o ?obs"
    using nth by auto
  have some: "(\<exists>p \<in> set predicted. sq_dist (x_o ?obs) (y_o ?obs) p < dbl_max) \<longrightarrow>
      (\<exists>k. first_min predicted (x_o ?obs) (y_o ?obs) k \<and>
           id_o (dataAssociation predicted observations ! j) = id_o (predicted ! k))"
    unfolding nth by (rule impI) (rule dataAssociation_k_some)
  have none: "predicted \<noteq> [] \<and> (\<forall>p \<in> set predicted. dbl_max \<le> sq_dist (x_o ?obs) (y_o ?obs) p) \<longrightarrow>
      id_o (dataAssociation predicted observations ! j) = - 1"
  proof
    assume a: "predicted \<noteq> [] \<and> (\<forall>p \<in> set predicted. dbl_max \<le> sq_dist (x_o ?obs) (y_o ?obs) p)"
    then have "\<forall>p \<in> set predicted. \<not> sq_dist (x_o ?obs) (y_o ?obs) p < dbl_max"
      by (simp add: not_less)
    from dataAssociation_k_none [OF this, of "- 1"] a show
      "id_o (dataAssociation predicted observations ! j) = - 1"
      by (simp add: nth)
  qed
  show ?thesis
    using len empty some none by (simp add: nth dataAssociation_k_coords)
qed

text \<open>
  Two landmarks at the exact squared distances \<open>1 + 2\<^sup>-\<^sup>6\<^sup>0\<close> and \<open>1\<close> from the observation:
  binary64 computes 1 for both, so the strict comparison keeps the first, of id 1,
  although the second, of id 2, is the nearer one.
\<close>

lemma dataAssociation_near_tie:
  "map id_o (dataAssociation [\<lparr>id_o = 1, x_o = 1, y_o = 1 / 2 ^ 30\<rparr>, \<lparr>id_o = 2, x_o = 0, y_o = 1\<rparr>]
              [\<lparr>id_o = 0, x_o = 0, y_o = 0\<rparr>]) = [1] \<and>
   sq_dist_exact 0 0 \<lparr>id_o = 2, x_o = 0, y_o = 1\<rparr> <
   sq_dist_exact 0 0 \<lparr>id_o = 1, x_o = 1, y_o = 1 / 2 ^ 30\<rparr>"
proof -
  have "1 < dbl_max" by (simp add: dbl_max_def)
  then show ?thesis
    using sq_dist_near_tie
    by (simp add: dataAssociation_def Let_def sq_dist_def sq_dist_exact_def)
qed

text \<open>
  Claim C6 fails on the code. The single predicted landmark, of id 7, lies at
  \<open>(2\<^sup>6\<^sup>0\<^sup>0, 0)\<close> and the observation at the origin. The square of the difference is
  beyond \<^verbatim>\<open>numeric_limits<double>::max()\<close>, so the computed \<^verbatim>\<open>distance\<close> is an infinity,
  \<^verbatim>\<open>distance < minDist\<close> is false, and the observation gets the id \<open>-1\<close>, not the id 7
  of the landmark that is closest to it.
\<close>

theorem dataAssociation_overflow_unmatched:
  "map id_o (dataAssociation [\<lparr>id_o = 7, x_o = 2 ^ 600, y_o = 0\<rparr>] [\<lparr>id_o = 5, x_o = 0, y_o = 0\<rparr>]) = [- 1]"
proof -
  have x: "fl_sub 0 (2 ^ 600) = - (2 ^ 600)"
    using round64_exact [of "- (2 ^ 600)" "- 1" 600]
    by (simp add: fl_sub_def finite64_def dbl_max_def)
  have xx: "fl_mul (- (2 ^ 600)) (- (2 ^ 600)) = 2 ^ 1200"
    using round64_pow2 [of 1200]
    by (simp add: fl_mul_def finite64_def dbl_max_def)
  have "\<not> finite64 (2 ^ 1200)"
    by (simp add: finite64_def dbl_max_def)
  then have d: "fl_add (fl_mul (fl_sub 0 (2 ^ 600)) (fl_sub 0 (2 ^ 600)))
                  (fl_mul (fl_sub 0 0) (fl_sub 0 0)) = inf64"
    unfolding x xx by (simp add: fl_add_def)
  show ?thesis
    using inf64_not_less by (simp add: dataAssociation_def Let_def d del: power_numeral)
qed

section \<open>Properties of init\<close>

lemma init_i_length: "length (init_i draws i n ps) = length ps + nat (n - i)"
proof (induction "nat (n - i)" arbitrary: i ps)
  case 0
  then have "\<not> i < n" by simp
  then show ?case by (subst init_i.simps) simp
next
  case (Suc m)
  then have lt: "i < n" and m: "m = nat (n - (i + 1))" by simp_all
  have "nat (n - i) = Suc (nat (n - (i + 1)))" using lt by simp
  then show ?case
    using lt Suc.hyps(1) [OF m]
    by (subst init_i.simps) (simp add: Let_def split: prod.splits)
qed

lemma init_new_filter:
  "num_particles (init new_filter x y theta std draws) = 100 \<and>
   length (particles (init new_filter x y theta std draws)) = 100 \<and>
   is_initialized (init new_filter x y theta std draws)"
  by (simp add: init_def new_filter_def init_i_length)

text \<open>
  Claim C7. On a filter whose \<^verbatim>\<open>is_initialized\<close> is true, \<^verbatim>\<open>init\<close> with any arguments
  and any draws returns the state it was given: \<^verbatim>\<open>num_particles\<close>, every particle and
  \<^verbatim>\<open>is_initialized\<close> are unchanged.
\<close>

theorem init_twice_no_op:
  "is_initialized s \<Longrightarrow> init s x y theta std draws = s"
  by (simp add: init_def)

theorem init_twice_no_op_witness:
  "is_initialized (init new_filter 0 0 0 (1, 1, 1) (\<lambda>i. (0, 0, 0))) \<and>
   init (init new_filter 0 0 0 (1, 1, 1) (\<lambda>i. (0, 0, 0))) 5 5 5 (2, 2, 2) (\<lambda>i. (1, 1, 1)) =
   init new_filter 0 0 0 (1, 1, 1) (\<lambda>i. (0, 0, 0))"
proof -
  have i: "is_initialized (init new_filter 0 0 0 (1, 1, 1) (\<lambda>i. (0, 0, 0)))"
    using init_new_filter by blast
  from init_twice_no_op [OF i] i show ?thesis by simp
qed

section \<open>Properties of prediction\<close>

lemma prediction_i_step:
  "i < n \<Longrightarrow> 0 \<le> i \<Longrightarrow> nat i < length ps \<Longrightarrow>
   prediction_i delta_t velocity yaw_rate noise i n ps =
   prediction_i delta_t velocity yaw_rate noise (i + 1) n
     (ps[nat i := prediction_particle delta_t velocity yaw_rate (noise (nat i)) (ps ! nat i)])"
  by (subst prediction_i.simps) (simp add: vec_at_in_range)

lemma prediction_i_done:
  "\<not> i < n \<Longrightarrow> prediction_i delta_t velocity yaw_rate noise i n ps = Inr ps"
  by (subst prediction_i.simps) simp

lemma prediction_i_result:
  "0 \<le> i \<Longrightarrow> int (length ps) = n \<Longrightarrow>
   \<exists>ps'. prediction_i delta_t velocity yaw_rate noise i n ps = Inr ps' \<and>
         length ps' = length ps \<and>
         (\<forall>k < length ps. ps' ! k =
            (if nat i \<le> k then prediction_particle delta_t velocity yaw_rate (noise k) (ps ! k)
             else ps ! k))"
proof (induction "nat (n - i)" arbitrary: i ps)
  case 0
  then have "\<not> i < n" by simp
  then show ?case using 0 by (simp add: prediction_i_done)
next
  case (Suc m)
  then have lt: "i < n" by simp
  let ?ps = "ps[nat i := prediction_particle delta_t velocity yaw_rate (noise (nat i)) (ps ! nat i)]"
  have in_range: "nat i < length ps" using lt Suc.prems by simp
  have m: "m = nat (n - (i + 1))" using Suc.hyps(2) by simp
  have "0 \<le> i + 1" "int (length ?ps) = n" using Suc.prems by simp_all
  from Suc.hyps(1) [OF m this] obtain ps' where
    ps': "prediction_i delta_t velocity yaw_rate noise (i + 1) n ?ps = Inr ps'"
      "length ps' = length ?ps"
      "\<forall>k < length ?ps. ps' ! k =
         (if nat (i + 1) \<le> k then prediction_particle delta_t velocity yaw_rate (noise k) (?ps ! k)
          else ?ps ! k)"
    by blast
  have "prediction_i delta_t velocity yaw_rate noise i n ps = Inr ps'"
    using prediction_i_step [OF lt Suc.prems(1) in_range] ps'(1) by simp
  moreover have "\<forall>k < length ps. ps' ! k =
      (if nat i \<le> k then prediction_particle delta_t velocity yaw_rate (noise k) (ps ! k) else ps ! k)"
  proof (intro allI impI)
    fix k assume k: "k < length ps"
    have ni: "nat (i + 1) = Suc (nat i)" using Suc.prems(1) by simp
    show "ps' ! k =
      (if nat i \<le> k then prediction_particle delta_t velocity yaw_rate (noise k) (ps ! k) else ps ! k)"
      using ps'(3) k in_range unfolding ni
      by (cases "k = nat i") (auto simp: nth_list_update)
  qed
  ultimately show ?case using ps'(2) by simp
qed

lemma prediction_result:
  assumes "int (length (particles s)) = num_particles s"
  shows "\<exists>ps'. prediction s delta_t std_pos velocity yaw_rate noise = Inr (s\<lparr>particles := ps'\<rparr>) \<and>
           length ps' = length (particles s) \<and>
           (\<forall>k < length (particles s).
              ps' ! k = prediction_particle delta_t velocity yaw_rate (noise k) (particles s ! k))"
proof -
  from prediction_i_result [of 0 "particles s" "num_particles s" delta_t velocity yaw_rate noise] assms
  obtain ps' where
    "prediction_i delta_t velocity yaw_rate noise 0 (num_particles s) (particles s) = Inr ps'"
    "length ps' = length (particles s)"
    "\<forall>k < length (particles s).
       ps' ! k = prediction_particle delta_t velocity yaw_rate (noise k) (particles s ! k)"
    by auto
  then show ?thesis by (auto simp: prediction_def)
qed

text \<open>
  Claim C3. On a filter whose population has \<^verbatim>\<open>num_particles\<close> elements,
  \<^verbatim>\<open>prediction\<close> returns, and the particle at every index \<open>k\<close> has moved by the
  motion model and the three drawn values: with \<open>|yaw_rate|\<close> above the \<^verbatim>\<open>double\<close>
  \<^verbatim>\<open>0.00001\<close> by
  \<open>(v/\<omega>)(sin(\<theta> + \<omega>\<Delta>t) - sin \<theta>)\<close> in \<open>x\<close>, \<open>(v/\<omega>)(cos \<theta> - cos(\<theta> + \<omega>\<Delta>t))\<close> in \<open>y\<close> and
  \<open>\<omega>\<Delta>t\<close> in \<open>\<theta>\<close>; otherwise by \<open>v\<Delta>t cos \<theta>\<close> in \<open>x\<close>, \<open>v\<Delta>t sin \<theta>\<close> in \<open>y\<close> and nothing
  in \<open>\<theta>\<close>. The new heading is this sum itself, so it is not wrapped into an interval.
  The id and the weight stay.
\<close>

theorem prediction_motion_model:
  assumes "int (length (particles s)) = num_particles s"
    and "k < length (particles s)"
  shows "\<exists>s'. prediction s delta_t std_pos velocity yaw_rate noise = Inr s' \<and>
           length (particles s') = length (particles s) \<and>
           x_p (particles s' ! k) =
             x_p (particles s ! k) +
             (if \<bar>yaw_rate\<bar> > yaw_rate_eps
              then (velocity / yaw_rate) *
                   (sin (theta_p (particles s ! k) + yaw_rate * delta_t) - sin (theta_p (particles s ! k)))
              else velocity * delta_t * cos (theta_p (particles s ! k))) +
             fst (noise k) \<and>
           y_p (particles s' ! k) =
             y_p (particles s ! k) +
             (if \<bar>yaw_rate\<bar> > yaw_rate_eps
              then (velocity / yaw_rate) *
                   (cos (theta_p (particles s ! k)) - cos (theta_p (particles s ! k) + yaw_rate * delta_t))
              else velocity * delta_t * sin (theta_p (particles s ! k))) +
             fst (snd (noise k)) \<and>
           theta_p (particles s' ! k) =
             theta_p (particles s ! k) +
             (if \<bar>yaw_rate\<bar> > yaw_rate_eps then yaw_rate * delta_t else 0) +
             snd (snd (noise k)) \<and>
           id_p (particles s' ! k) = id_p (particles s ! k) \<and>
           weight_p (particles s' ! k) = weight_p (particles s ! k)"
proof -
  from prediction_result [OF assms(1), of delta_t std_pos velocity yaw_rate noise] obtain ps' where
    run: "prediction s delta_t std_pos velocity yaw_rate noise = Inr (s\<lparr>particles := ps'\<rparr>)"
    and len: "length ps' = length (particles s)"
    and nth: "\<forall>k < length (particles s).
                ps' ! k = prediction_particle delta_t velocity yaw_rate (noise k) (particles s ! k)"
    by blast
  have k: "ps' ! k = prediction_particle delta_t velocity yaw_rate (noise k) (particles s ! k)"
    using nth assms(2) by simp
  obtain nx ny ntheta where n: "noise k = (nx, ny, ntheta)"
    by (cases "noise k") auto
  show ?thesis
    using run len by (simp add: k n prediction_particle_def Let_def)
qed

text \<open>At a yaw rate equal to the \<^verbatim>\<open>double\<close> \<^verbatim>\<open>0.00001\<close> the comparison is false: a particle
  at the origin with heading 0, one time unit at velocity 1, no noise, moves straight to
  \<open>(1, 0)\<close> and keeps the heading 0.\<close>

theorem prediction_motion_model_witness:
  "int (length (particles unit_filter)) = num_particles unit_filter \<and>
   (0::nat) < length (particles unit_filter) \<and>
   \<not> \<bar>yaw_rate_eps\<bar> > yaw_rate_eps \<and>
   (\<exists>s'. prediction unit_filter 1 (0, 0, 0) 1 yaw_rate_eps (\<lambda>i. (0, 0, 0)) = Inr s' \<and>
         x_p (particles s' ! 0) = 1 \<and> y_p (particles s' ! 0) = 0 \<and> theta_p (particles s' ! 0) = 0)"
proof -
  have len: "(0::nat) < length (particles unit_filter)" by (simp add: unit_filter_def)
  have eps: "\<not> \<bar>yaw_rate_eps\<bar> > yaw_rate_eps" by (simp add: yaw_rate_eps_def)
  from prediction_motion_model [OF unit_filter_inv len, of 1 "(0, 0, 0)" 1 yaw_rate_eps "\<lambda>i. (0, 0, 0)"]
  show ?thesis
    using unit_filter_inv len eps by (auto simp: unit_filter_nth unit_particle_def)
qed

section \<open>Properties of updateWeights\<close>

lemma updateWeights_i_step:
  "i < n \<Longrightarrow> 0 \<le> i \<Longrightarrow> nat i < length ps \<Longrightarrow>
   updateWeights_i sensor_range std_landmark observations landmarks i n ps =
   updateWeights_i sensor_range std_landmark observations landmarks (i + 1) n
     (ps[nat i := updateWeights_particle sensor_range std_landmark observations landmarks (ps ! nat i)])"
  by (subst updateWeights_i.simps) (simp add: vec_at_in_range)

lemma updateWeights_i_done:
  "\<not> i < n \<Longrightarrow> updateWeights_i sensor_range std_landmark observations landmarks i n ps = Inr ps"
  by (subst updateWeights_i.simps) simp

lemma updateWeights_i_result:
  "0 \<le> i \<Longrightarrow> int (length ps) = n \<Longrightarrow>
   updateWeights_i sensor_range std_landmark observations landmarks i n ps =
   Inr (take (nat i) ps @
        map (updateWeights_particle sensor_range std_landmark observations landmarks) (drop (nat i) ps))"
proof (induction "nat (n - i)" arbitrary: i ps)
  case 0
  then have "\<not> i < n" and "length ps \<le> nat i" by simp_all
  then show ?case by (simp add: updateWeights_i_done)
next
  case (Suc m)
  then have lt: "i < n" by simp
  let ?f = "updateWeights_particle sensor_range std_landmark observations landmarks"
  let ?ps = "ps[nat i := ?f (ps ! nat i)]"
  have in_range: "nat i < length ps" using lt Suc.prems by simp
  have m: "m = nat (n - (i + 1))" using Suc.hyps(2) by simp
  have ni: "nat (i + 1) = Suc (nat i)" using Suc.prems(1) by simp
  have "0 \<le> i + 1" "int (length ?ps) = n" using Suc.prems by simp_all
  from Suc.hyps(1) [OF m this]
  have "updateWeights_i sensor_range std_landmark observations landmarks (i + 1) n ?ps =
        Inr (take (Suc (nat i)) ?ps @ map ?f (drop (Suc (nat i)) ?ps))"
    unfolding ni .
  also have "take (Suc (nat i)) ?ps = take (nat i) ps @ [?f (ps ! nat i)]"
    using in_range by (simp add: take_Suc_conv_app_nth)
  also have "drop (Suc (nat i)) ?ps = drop (Suc (nat i)) ps"
    by simp
  finally show ?case
    using updateWeights_i_step [OF lt Suc.prems(1) in_range, of sensor_range std_landmark observations landmarks]
      Cons_nth_drop_Suc [OF in_range, symmetric]
    by simp
qed

lemma updateWeights_result:
  assumes "int (length (particles s)) = num_particles s"
  shows "updateWeights s sensor_range std_landmark observations map_landmarks =
         Inr (s\<lparr>particles := map (updateWeights_particle sensor_range std_landmark observations
                                     (landmark_list map_landmarks)) (particles s)\<rparr>)"
  using updateWeights_i_result [of 0 "particles s" "num_particles s"] assms
  by (simp add: updateWeights_def)

lemma updateWeights_predictions_candidates:
  "updateWeights_predictions landmarks px py sensor_range acc =
   acc @ candidates landmarks px py sensor_range"
  by (induction landmarks arbitrary: acc) (simp_all add: candidates_def Let_def)





lemma updateWeights_j_no_candidates:
  "updateWeights_j obs [] std_landmark (x_p p) (y_p p) (theta_p p) w =
   foldl (\<lambda>w ob. w * multiv_prob (fst std_landmark) (snd std_landmark)
                        (fst (to_map p ob)) (snd (to_map p ob)) 0 0) w obs"
  by (induction obs arbitrary: w) (simp_all add: Let_def to_map_def)

lemma updateWeights_particle_unfold:
  "updateWeights_particle sensor_range std_landmark observations landmarks p =
   p\<lparr>weight_p := updateWeights_j observations (candidates landmarks (x_p p) (y_p p) sensor_range)
                    std_landmark (x_p p) (y_p p) (theta_p p) 1\<rparr>"
  by (simp add: updateWeights_particle_def Let_def updateWeights_predictions_candidates)

lemma dist_h_le_iff:
  assumes "0 \<le> r"
  shows "dist_h x1 y1 x2 y2 \<le> r \<longleftrightarrow>
     (x2 - x1) * (x2 - x1) + (y2 - y1) * (y2 - y1) \<le> r * r"
proof -
  have "sqrt (r * r) = r" using assms by simp
  then show ?thesis
    unfolding dist_h_def by (metis real_sqrt_le_iff)
qed

lemma to_map_unit_particle:
  assumes "finite64 y" "round64 y = y"
  shows "to_map unit_particle \<lparr>id_o = n, x_o = 0, y_o = y\<rparr> = (0, y)"
proof -
  have f: "finite64 0" "finite64 1"
    by (simp_all add: finite64_small)
  have c: "fl_cos 0 = 1" and s: "fl_sin 0 = 0"
    using f by (simp_all add: fl_cos_def fl_sin_def round64_1 round64_0)
  show ?thesis
    using f assms
    by (simp add: to_map_def unit_particle_def c s fl_add_def fl_sub_def fl_mul_def round64_0)
qed



text \<open>
  Claim C5. When no map landmark lies within \<^verbatim>\<open>sensor_range\<close> of the particle at index
  \<open>i\<close>, \<^verbatim>\<open>updateWeights\<close> still returns: \<^verbatim>\<open>predictions\<close> is empty, the association loop
  over it leaves \<^verbatim>\<open>mapId\<close> at \<open>-1\<close> and \<^verbatim>\<open>(p_x, p_y)\<close> at \<open>(0, 0)\<close> for every
  observation, and the new weight is 1 multiplied, observation by observation, by the
  Gaussian density of the observation in the map frame with the origin as mean.
\<close>

theorem updateWeights_no_landmark_in_range:
  assumes "int (length (particles s)) = num_particles s"
    and "i < length (particles s)"
    and "\<forall>l \<in> set (landmark_list map_landmarks).
           \<not> dist_h (x_p (particles s ! i)) (y_p (particles s ! i)) (x_f l) (y_f l) \<le> sensor_range"
  shows "\<exists>s'. updateWeights s sensor_range std_landmark observations map_landmarks = Inr s' \<and>
           length (particles s') = length (particles s) \<and>
           updateWeights_predictions (landmark_list map_landmarks)
             (x_p (particles s ! i)) (y_p (particles s ! i)) sensor_range [] = [] \<and>
           (\<forall>ox oy. updateWeights_k [] ox oy (dbl_max, - 1, 0, 0) = (dbl_max, - 1, 0, 0)) \<and>
           weight_p (particles s' ! i) =
           foldl (\<lambda>w ob. w * multiv_prob (fst std_landmark) (snd std_landmark)
                    (fst (to_map (particles s ! i) ob)) (snd (to_map (particles s ! i) ob)) 0 0)
             1 observations"
proof -
  let ?p = "particles s ! i"
  let ?s' = "s\<lparr>particles := map (updateWeights_particle sensor_range std_landmark observations
                                  (landmark_list map_landmarks)) (particles s)\<rparr>"
  have run: "updateWeights s sensor_range std_landmark observations map_landmarks = Inr ?s'"
    by (rule updateWeights_result [OF assms(1)])
  have c: "candidates (landmark_list map_landmarks) (x_p ?p) (y_p ?p) sensor_range = []"
    using assms(3) by (simp add: candidates_def filter_empty_conv)
  have w: "weight_p (particles ?s' ! i) =
        foldl (\<lambda>w ob. w * multiv_prob (fst std_landmark) (snd std_landmark)
                    (fst (to_map ?p ob)) (snd (to_map ?p ob)) 0 0) 1 observations"
    using assms(2) by (simp add: updateWeights_particle_unfold c updateWeights_j_no_candidates)
  have p: "updateWeights_predictions (landmark_list map_landmarks) (x_p ?p) (y_p ?p) sensor_range [] = []"
    by (simp add: updateWeights_predictions_candidates c)
  have len: "length (particles ?s') = length (particles s)" by simp
  have k: "\<forall>ox oy. updateWeights_k [] ox oy (dbl_max, - 1, 0, 0) = (dbl_max, - 1, 0, 0)" by simp
  show ?thesis
    using run len p k w by blast
qed

theorem updateWeights_no_landmark_in_range_witness:
  "int (length (particles unit_filter)) = num_particles unit_filter \<and>
   (0::nat) < length (particles unit_filter) \<and>
   \<not> dist_h 0 0 60 80 \<le> 50 \<and>
   (\<exists>s'. updateWeights unit_filter 50 (3 / 10, 3 / 10) [\<lparr>id_o = 0, x_o = 0, y_o = 2\<rparr>]
            \<lparr>landmark_list = [\<lparr>id_i = 1, x_f = 60, y_f = 80\<rparr>]\<rparr> = Inr s' \<and>
         weight_p (particles s' ! 0) = multiv_prob (3 / 10) (3 / 10) 0 2 0 0)"
proof -
  let ?ob = "\<lparr>id_o = 0, x_o = 0, y_o = 2\<rparr>"
  have len: "(0::nat) < length (particles unit_filter)" by (simp add: unit_filter_def)
  have p0: "particles unit_filter ! 0 = unit_particle" by (simp add: unit_filter_nth)
  have far: "\<not> dist_h 0 0 60 80 \<le> 50" by (simp add: dist_h_le_iff)
  have t: "to_map unit_particle ?ob = (0, 2)"
    by (rule to_map_unit_particle) (simp_all add: finite64_small round64_numeral)
  have none: "\<forall>l \<in> set (landmark_list \<lparr>landmark_list = [\<lparr>id_i = 1, x_f = 60, y_f = 80\<rparr>]\<rparr>).
           \<not> dist_h (x_p (particles unit_filter ! 0)) (y_p (particles unit_filter ! 0)) (x_f l) (y_f l) \<le> 50"
    using far by (simp add: p0 unit_particle_def)
  from updateWeights_no_landmark_in_range [OF unit_filter_inv len none, of "(3 / 10, 3 / 10)" "[?ob]"]
  show ?thesis
    using unit_filter_inv len far by (auto simp: p0 t)
qed

text \<open>
  Claim C9. With no observations, \<^verbatim>\<open>updateWeights\<close> on a filter whose population has
  \<^verbatim>\<open>num_particles\<close> elements sets the weight of every particle to 1 and changes nothing
  else, whatever the sensor range, the deviations and the map.
\<close>

theorem updateWeights_no_observations:
  assumes "int (length (particles s)) = num_particles s"
  shows "updateWeights s sensor_range std_landmark [] map_landmarks =
         Inr (s\<lparr>particles := map (\<lambda>p. p\<lparr>weight_p := 1\<rparr>) (particles s)\<rparr>)"
proof -
  have "updateWeights_particle sensor_range std_landmark [] (landmark_list map_landmarks) =
        (\<lambda>p. p\<lparr>weight_p := 1\<rparr>)"
    by (rule ext) (simp add: updateWeights_particle_def Let_def)
  then show ?thesis
    using updateWeights_result [OF assms, of sensor_range std_landmark "[]" map_landmarks] by simp
qed

theorem updateWeights_no_observations_witness:
  "int (length (particles unit_filter)) = num_particles unit_filter \<and>
   updateWeights (unit_filter\<lparr>particles := replicate 100 zero_particle\<rparr>) 50 (3 / 10, 3 / 10) []
     \<lparr>landmark_list = [\<lparr>id_i = 1, x_f = 5, y_f = 5\<rparr>]\<rparr> = Inr unit_filter"
proof -
  have inv: "int (length (particles (unit_filter\<lparr>particles := replicate 100 zero_particle\<rparr>))) =
             num_particles (unit_filter\<lparr>particles := replicate 100 zero_particle\<rparr>)"
    by (simp add: unit_filter_def)
  from updateWeights_no_observations [OF inv, of 50 "(3 / 10, 3 / 10)"
      "\<lparr>landmark_list = [\<lparr>id_i = 1, x_f = 5, y_f = 5\<rparr>]\<rparr>"]
  show ?thesis
    using unit_filter_inv by (simp add: unit_filter_def zero_particle_def unit_particle_def)
qed

section \<open>Properties of resample\<close>

lemma resample_w_result:
  "0 \<le> i \<Longrightarrow> int (length ps) = n \<Longrightarrow>
   resample_w i n ps w maxWeight =
   Inr (w @ map weight_p (drop (nat i) ps),
        foldl (\<lambda>m p. if m < weight_p p then weight_p p else m) maxWeight (drop (nat i) ps))"
proof (induction "nat (n - i)" arbitrary: i w maxWeight)
  case 0
  then have "\<not> i < n" and "length ps \<le> nat i" by simp_all
  then show ?case by (subst resample_w.simps) simp
next
  case (Suc m)
  then have lt: "i < n" by simp
  have in_range: "nat i < length ps" using lt Suc.prems by simp
  have m: "m = nat (n - (i + 1))" using Suc.hyps(2) by simp
  have ni: "nat (i + 1) = Suc (nat i)" using Suc.prems(1) by simp
  have "0 \<le> i + 1" using Suc.prems by simp
  from Suc.hyps(1) [OF m this Suc.prems(2)] show ?case
    using lt Suc.prems(1) in_range Cons_nth_drop_Suc [OF in_range, symmetric]
    by (subst resample_w.simps) (simp add: vec_at_in_range ni)
qed

lemma resample_i_result:
  "resample_i ps w draws i n beta index acc = Some (Inr r) \<Longrightarrow>
   length r = length acc + nat (n - i) \<and> set r \<subseteq> set acc \<union> set ps"
proof (induction "nat (n - i)" arbitrary: i beta index acc)
  case 0
  then have "\<not> i < n" by simp
  then show ?case using "0.prems" by (subst (asm) resample_i.simps) auto
next
  case (Suc m)
  then have lt: "i < n" by simp
  have m: "m = nat (n - (i + 1))" using Suc.hyps(2) by simp
  from Suc.prems lt obtain beta' index' p where
    p: "vec_at ps index' = Inr p"
    and rec: "resample_i ps w draws (i + 1) n beta' index' (acc @ [p]) = Some (Inr r)"
    by (subst (asm) resample_i.simps) (auto split: option.splits sum.splits prod.splits)
  have "p \<in> set ps" using p by (auto simp: vec_at_def split: if_splits)
  moreover have "nat (n - i) = Suc (nat (n - (i + 1)))" using lt by simp
  ultimately show ?case
    using Suc.hyps(1) [OF m rec] by auto
qed

lemma resample_Some:
  assumes "resample s index0 wdraws = Some (Inr s')"
  shows "\<exists>r. s' = s\<lparr>particles := r\<rparr> \<and> length r = nat (num_particles s) \<and> set r \<subseteq> set (particles s)"
proof -
  from assms obtain w maxWeight r where
    "resample_i (particles s) w wdraws 0 (num_particles s) 0 index0 [] = Some (Inr r)"
    and s': "s' = s\<lparr>particles := r\<rparr>"
    by (auto simp: resample_def split: sum.splits prod.splits option.splits)
  from resample_i_result [OF this(1)] s' show ?thesis by auto
qed

lemma resample_wheel_stalls:
  assumes ret: "resample_wheel w n beta index = Some r"
  shows "\<not> ((\<forall>v \<in> set w. v = 0) \<and> 0 < beta \<and> int (length w) = n \<and> 0 \<le> index \<and> index < n)"
proof (rule resample_wheel.raw_induct
    [where P = "\<lambda>w n beta index r.
       \<not> ((\<forall>v \<in> set w. v = 0) \<and> 0 < beta \<and> int (length w) = n \<and> 0 \<le> index \<and> index < n)",
     OF _ ret])
  fix wheel :: "real list \<Rightarrow> int \<Rightarrow> real \<Rightarrow> int \<Rightarrow> (error + real \<times> int) option"
  fix w n beta index r
  assume IH: "\<And>w n beta index r. wheel w n beta index = Some r \<Longrightarrow>
     \<not> ((\<forall>v \<in> set w. v = 0) \<and> 0 < beta \<and> int (length w) = n \<and> 0 \<le> index \<and> index < n)"
  assume step: "(if \<not> (0 \<le> index \<and> nat index < length w) then Some (Inl OutOfRange)
      else if w ! nat index < beta
           then wheel w n (beta - w ! nat index) ((index + 1) mod n)
           else Some (Inr (beta, index))) = Some r"
  show "\<not> ((\<forall>v \<in> set w. v = 0) \<and> 0 < beta \<and> int (length w) = n \<and> 0 \<le> index \<and> index < n)"
  proof
    assume a: "(\<forall>v \<in> set w. v = 0) \<and> 0 < beta \<and> int (length w) = n \<and> 0 \<le> index \<and> index < n"
    then have in_range: "0 \<le> index \<and> nat index < length w" by auto
    then have zero: "w ! nat index = 0" using a by simp
    have next_range: "0 \<le> (index + 1) mod n \<and> (index + 1) mod n < n"
      using a by simp
    from step in_range zero a have "wheel w n beta ((index + 1) mod n) = Some r"
      by simp
    from IH [OF this] a next_range show False by simp
  qed
qed

lemma resample_wheel_all_zero:
  assumes "\<forall>v \<in> set w. v = 0" "0 < beta" "int (length w) = n" "0 \<le> index" "index < n"
  shows "resample_wheel w n beta index = None"
proof (cases "resample_wheel w n beta index")
  case None
  then show ?thesis .
next
  case (Some r)
  from resample_wheel_stalls [OF this] assms show ?thesis by simp
qed

lemma resample_all_zero_diverges:
  assumes inv: "int (length (particles s)) = num_particles s"
    and zero: "\<forall>p \<in> set (particles s). weight_p p = 0"
    and idx: "0 \<le> index0" "index0 < num_particles s"
    and draw: "0 < wdraws 0"
  shows "resample s index0 wdraws = None"
proof -
  let ?w = "map weight_p (particles s)"
  let ?mw = "foldl (\<lambda>m p. if m < weight_p p then weight_p p else m) dbl_min (particles s)"
  have w: "resample_w 0 (num_particles s) (particles s) [] dbl_min = Inr (?w, ?mw)"
    using resample_w_result [of 0 "particles s" "num_particles s" "[]" dbl_min] inv by simp
  have "resample_wheel ?w (num_particles s) (0 + 2 * wdraws (nat 0)) index0 = None"
    using zero inv idx draw by (intro resample_wheel_all_zero) auto
  moreover have "0 < num_particles s" using idx by simp
  ultimately have "resample_i (particles s) ?w wdraws 0 (num_particles s) 0 index0 [] = None"
    by (subst resample_i.simps) simp
  then show ?thesis by (simp add: resample_def w)
qed

lemma maxWeight_small:
  "\<forall>p \<in> set ps. weight_p p \<le> m \<Longrightarrow>
   foldl (\<lambda>m p. if m < weight_p p then weight_p p else m) m ps = m"
  by (induction ps) simp_all

text \<open>
  Claim C1 fails on the code. With a hundred particles of weight 0, \<^verbatim>\<open>maxWeight\<close> stays
  at \<^verbatim>\<open>numeric_limits<double>::min()\<close>, which is positive, so \<^verbatim>\<open>dist_w\<close> can draw half
  of it. Then \<^verbatim>\<open>beta\<close> is positive, every \<^verbatim>\<open>w[index]\<close> is 0, and the wheel's
  \<^verbatim>\<open>while\<close> loop never ends: \<^verbatim>\<open>resample\<close> does not return.
\<close>

theorem resample_all_zero_never_returns:
  "maxWeight_of \<lparr>num_particles = 100, is_initialized = True,
                 particles = replicate 100 zero_particle\<rparr> = dbl_min \<and>
   0 < dbl_min / 2 \<and> dbl_min / 2 < dbl_min \<and>
   resample \<lparr>num_particles = 100, is_initialized = True,
             particles = replicate 100 zero_particle\<rparr> 0 (\<lambda>i. dbl_min / 2) = None"
proof -
  let ?s = "\<lparr>num_particles = 100, is_initialized = True, particles = replicate 100 zero_particle\<rparr>"
  have pos: "0 < dbl_min" by (simp add: dbl_min_def)
  have "resample_w 0 (num_particles ?s) (particles ?s) [] dbl_min =
        Inr ([] @ map weight_p (drop (nat 0) (particles ?s)),
             foldl (\<lambda>m p. if m < weight_p p then weight_p p else m) dbl_min (drop (nat 0) (particles ?s)))"
    by (rule resample_w_result) simp_all
  moreover have "foldl (\<lambda>m p. if m < weight_p p then weight_p p else m) dbl_min (particles ?s) = dbl_min"
    using pos by (intro maxWeight_small) (simp add: zero_particle_def)
  ultimately have mw: "maxWeight_of ?s = dbl_min"
    by (simp add: maxWeight_of_def)
  have "resample ?s 0 (\<lambda>i. dbl_min / 2) = None"
    using pos by (intro resample_all_zero_diverges) (simp_all add: zero_particle_def)
  then show ?thesis using mw pos by simp
qed

lemma next_index:
  "0 \<le> index \<Longrightarrow> index < n \<Longrightarrow> (index + 1) mod n = (if index + 1 = n then 0 else index + 1)"
  for index n :: int
  by (auto simp: mod_pos_pos_trivial)

lemma resample_wheel_terminates:
  assumes nonneg: "\<forall>v \<in> set w. 0 \<le> v"
    and m: "m < length w" "0 < w ! m"
    and len: "int (length w) = n"
  shows "0 \<le> index \<Longrightarrow> index < n \<Longrightarrow>
         \<exists>beta' index'. resample_wheel w n beta index = Some (Inr (beta', index')) \<and>
                         0 \<le> index' \<and> index' < n"
proof (induction "wheel_measure (w ! m) (int m) n beta index" arbitrary: beta index rule: less_induct)
  case less
  let ?c = "w ! m"
  have in_range: "0 \<le> index \<and> nat index < length w" using less.prems len by auto
  have wi: "0 \<le> w ! nat index" using nonneg in_range by simp
  show ?case
  proof (cases "beta > w ! nat index")
    case False
    then show ?thesis
      using in_range less.prems by (subst resample_wheel.simps) simp
  next
    case True
    let ?beta = "beta - w ! nat index"
    let ?index = "(index + 1) mod n"
    have nx: "?index = (if index + 1 = n then 0 else index + 1)"
      using less.prems by (rule next_index)
    have range': "0 \<le> ?index" "?index < n" using less.prems by simp_all
    have mn: "int m < n" using m(1) len by simp
    have k_le: "nat \<lceil>?beta / ?c\<rceil> \<le> nat \<lceil>beta / ?c\<rceil>"
      using wi m(2) by (intro nat_mono ceiling_mono divide_right_mono) simp_all
    have dec: "wheel_measure ?c (int m) n ?beta ?index < wheel_measure ?c (int m) n beta index"
    proof (cases "index = int m")
      case at_m: True
      have c1: "\<lceil>?beta / ?c\<rceil> = \<lceil>beta / ?c\<rceil> - 1"
        using m(2) at_m by (simp add: diff_divide_distrib)
      have "1 < beta / ?c" using True at_m m(2) by simp
      then have "1 < \<lceil>beta / ?c\<rceil>" by linarith
      with c1 have "Suc (nat \<lceil>?beta / ?c\<rceil>) = nat \<lceil>beta / ?c\<rceil>" by linarith
      then have "nat \<lceil>beta / ?c\<rceil> * nat n = nat \<lceil>?beta / ?c\<rceil> * nat n + nat n"
        by (metis mult_Suc add.commute)
      moreover have "nat (if ?index \<le> int m then int m - ?index else int m - ?index + n) < nat n"
        using nx at_m mn less.prems by (auto split: if_splits)
      ultimately show ?thesis
        unfolding wheel_measure_def by linarith
    next
      case not_m: False
      have "nat (if ?index \<le> int m then int m - ?index else int m - ?index + n)
            < nat (if index \<le> int m then int m - index else int m - index + n)"
        using nx not_m mn less.prems by (auto split: if_splits)
      moreover have "nat \<lceil>?beta / ?c\<rceil> * nat n \<le> nat \<lceil>beta / ?c\<rceil> * nat n"
        using k_le by (rule mult_le_mono1)
      ultimately show ?thesis
        unfolding wheel_measure_def by linarith
    qed
    from less.hyps [OF dec range'] obtain beta' index' where
      "resample_wheel w n ?beta ?index = Some (Inr (beta', index'))" "0 \<le> index'" "index' < n"
      by blast
    then show ?thesis
      using in_range True by (subst resample_wheel.simps) simp
  qed
qed

lemma resample_i_terminates:
  assumes nonneg: "\<forall>v \<in> set w. 0 \<le> v"
    and m: "m < length w" "0 < w ! m"
    and len: "int (length w) = n" "int (length ps) = n"
  shows "0 \<le> index \<Longrightarrow> index < n \<Longrightarrow>
         \<exists>r. resample_i ps w wdraws i n beta index acc = Some (Inr r)"
proof (induction "nat (n - i)" arbitrary: i beta index acc)
  case 0
  then have "\<not> i < n" by simp
  then show ?case by (subst resample_i.simps) simp
next
  case (Suc k)
  then have lt: "i < n" and k: "k = nat (n - (i + 1))" by simp_all
  from resample_wheel_terminates [OF nonneg m len(1) Suc.prems, of "beta + 2 * wdraws (nat i)"]
  obtain beta' index' where
    wheel: "resample_wheel w n (beta + 2 * wdraws (nat i)) index = Some (Inr (beta', index'))"
    and range': "0 \<le> index'" "index' < n"
    by blast
  have at: "vec_at ps index' = Inr (ps ! nat index')"
    using range' len(2) by (intro vec_at_in_range) auto
  from Suc.hyps(1) [OF k range', of beta' "acc @ [ps ! nat index']"] obtain r where
    "resample_i ps w wdraws (i + 1) n beta' index' (acc @ [ps ! nat index']) = Some (Inr r)"
    by blast
  then show ?case
    using lt wheel at by (subst resample_i.simps) simp
qed

lemma resample_wheel_in_range:
  assumes ret: "resample_wheel w n beta index = Some r"
  shows "int (length w) = n \<and> 0 \<le> index \<and> index < n \<longrightarrow>
         (\<exists>beta' index'. r = Inr (beta', index') \<and> 0 \<le> index' \<and> index' < n)"
proof (rule resample_wheel.raw_induct
    [where P = "\<lambda>w n beta index r. int (length w) = n \<and> 0 \<le> index \<and> index < n \<longrightarrow>
         (\<exists>beta' index'. r = Inr (beta', index') \<and> 0 \<le> index' \<and> index' < n)",
     OF _ ret])
  fix wheel :: "real list \<Rightarrow> int \<Rightarrow> real \<Rightarrow> int \<Rightarrow> (error + real \<times> int) option"
  fix w n beta index r
  assume IH: "\<And>w n beta index r. wheel w n beta index = Some r \<Longrightarrow>
     int (length w) = n \<and> 0 \<le> index \<and> index < n \<longrightarrow>
     (\<exists>beta' index'. r = Inr (beta', index') \<and> 0 \<le> index' \<and> index' < n)"
  assume step: "(if \<not> (0 \<le> index \<and> nat index < length w) then Some (Inl OutOfRange)
      else if w ! nat index < beta
           then wheel w n (beta - w ! nat index) ((index + 1) mod n)
           else Some (Inr (beta, index))) = Some r"
  show "int (length w) = n \<and> 0 \<le> index \<and> index < n \<longrightarrow>
        (\<exists>beta' index'. r = Inr (beta', index') \<and> 0 \<le> index' \<and> index' < n)"
  proof
    assume a: "int (length w) = n \<and> 0 \<le> index \<and> index < n"
    then have in_range: "0 \<le> index \<and> nat index < length w" by auto
    have next_range: "0 \<le> (index + 1) mod n \<and> (index + 1) mod n < n"
      using a by simp
    show "\<exists>beta' index'. r = Inr (beta', index') \<and> 0 \<le> index' \<and> index' < n"
    proof (cases "w ! nat index < beta")
      case True
      with step in_range have "wheel w n (beta - w ! nat index) ((index + 1) mod n) = Some r"
        by simp
      from IH [OF this] a next_range show ?thesis by simp
    next
      case False
      with step in_range a show ?thesis by auto
    qed
  qed
qed

lemma resample_i_no_error:
  assumes len: "int (length w) = n" "int (length ps) = n"
  shows "0 \<le> index \<Longrightarrow> index < n \<Longrightarrow>
         resample_i ps w wdraws i n beta index acc \<noteq> Some (Inl e)"
proof (induction "nat (n - i)" arbitrary: i beta index acc)
  case 0
  then have "\<not> i < n" by simp
  then show ?case by (subst resample_i.simps) simp
next
  case (Suc k)
  then have lt: "i < n" and k: "k = nat (n - (i + 1))" by simp_all
  show ?case
  proof (cases "resample_wheel w n (beta + 2 * wdraws (nat i)) index")
    case None
    then show ?thesis using lt by (subst resample_i.simps) simp
  next
    case (Some r)
    from resample_wheel_in_range [OF Some] len(1) Suc.prems obtain beta' index' where
      r: "r = Inr (beta', index')" and range': "0 \<le> index'" "index' < n"
      by auto
    have at: "vec_at ps index' = Inr (ps ! nat index')"
      using range' len(2) by (intro vec_at_in_range) auto
    from Suc.hyps(1) [OF k range', of beta' "acc @ [ps ! nat index']"]
    show ?thesis
      using lt Some r at by (subst resample_i.simps) simp
  qed
qed

lemma resample_no_error:
  assumes "int (length (particles s)) = num_particles s" "0 \<le> index0" "index0 < num_particles s"
  shows "resample s index0 wdraws \<noteq> Some (Inl e)"
proof -
  let ?w = "map weight_p (particles s)"
  let ?mw = "foldl (\<lambda>m p. if m < weight_p p then weight_p p else m) dbl_min (particles s)"
  have w: "resample_w 0 (num_particles s) (particles s) [] dbl_min = Inr (?w, ?mw)"
    using resample_w_result [of 0 "particles s" "num_particles s" "[]" dbl_min] assms(1) by simp
  have "resample_i (particles s) ?w wdraws 0 (num_particles s) 0 index0 [] \<noteq> Some (Inl e)"
    using assms by (intro resample_i_no_error) simp_all
  then show ?thesis
    by (auto simp: resample_def w split: option.splits sum.splits)
qed

text \<open>
  Claim C10. For a population with a particle of positive weight: every population that
  \<^verbatim>\<open>resample\<close> returns consists of particles of the population it was given, equal in
  every field, and has \<^verbatim>\<open>num_particles\<close> elements. And \<^verbatim>\<open>resample\<close> does return one,
  whatever the draws, when the population has \<^verbatim>\<open>num_particles\<close> elements, the start
  index lies within it and no weight is negative.
\<close>

theorem resample_copies:
  assumes "\<exists>p \<in> set (particles s). 0 < weight_p p"
  shows "(\<forall>s'. resample s index0 wdraws = Some (Inr s') \<longrightarrow>
            set (particles s') \<subseteq> set (particles s) \<and>
            length (particles s') = nat (num_particles s) \<and>
            num_particles s' = num_particles s) \<and>
         (int (length (particles s)) = num_particles s \<and>
          0 \<le> index0 \<and> index0 < num_particles s \<and>
          (\<forall>p \<in> set (particles s). 0 \<le> weight_p p) \<longrightarrow>
            (\<exists>s'. resample s index0 wdraws = Some (Inr s')))"
proof -
  have copies: "\<forall>s'. resample s index0 wdraws = Some (Inr s') \<longrightarrow>
            set (particles s') \<subseteq> set (particles s) \<and>
            length (particles s') = nat (num_particles s) \<and>
            num_particles s' = num_particles s"
  proof (intro allI impI)
    fix s' assume "resample s index0 wdraws = Some (Inr s')"
    from resample_Some [OF this]
    show "set (particles s') \<subseteq> set (particles s) \<and>
          length (particles s') = nat (num_particles s) \<and> num_particles s' = num_particles s"
      by auto
  qed
  have returns: "int (length (particles s)) = num_particles s \<and>
          0 \<le> index0 \<and> index0 < num_particles s \<and>
          (\<forall>p \<in> set (particles s). 0 \<le> weight_p p) \<longrightarrow>
            (\<exists>s'. resample s index0 wdraws = Some (Inr s'))"
  proof
    assume a: "int (length (particles s)) = num_particles s \<and>
          0 \<le> index0 \<and> index0 < num_particles s \<and>
          (\<forall>p \<in> set (particles s). 0 \<le> weight_p p)"
    let ?w = "map weight_p (particles s)"
    let ?mw = "foldl (\<lambda>m p. if m < weight_p p then weight_p p else m) dbl_min (particles s)"
    have w: "resample_w 0 (num_particles s) (particles s) [] dbl_min = Inr (?w, ?mw)"
      using resample_w_result [of 0 "particles s" "num_particles s" "[]" dbl_min] a by simp
    from assms obtain m where m: "m < length (particles s)" "0 < weight_p (particles s ! m)"
      by (auto simp: in_set_conv_nth)
    have "\<exists>r. resample_i (particles s) ?w wdraws 0 (num_particles s) 0 index0 [] = Some (Inr r)"
      using a m by (intro resample_i_terminates [where m = m]) simp_all
    then show "\<exists>s'. resample s index0 wdraws = Some (Inr s')"
      by (auto simp: resample_def w)
  qed
  show ?thesis using copies returns by blast
qed

theorem resample_copies_witness:
  "(\<exists>p \<in> set (particles unit_filter). 0 < weight_p p) \<and>
   (\<exists>s'. resample unit_filter 0 (\<lambda>i. 1 / 2) = Some (Inr s') \<and>
         set (particles s') \<subseteq> set (particles unit_filter) \<and>
         length (particles s') = 100)"
proof -
  have pos: "\<exists>p \<in> set (particles unit_filter). 0 < weight_p p"
    by (simp add: unit_filter_def unit_particle_def)
  have nonneg: "\<forall>p \<in> set (particles unit_filter). 0 \<le> weight_p p"
    by (simp add: unit_filter_def unit_particle_def)
  have idx: "(0::int) \<le> 0" "0 < num_particles unit_filter" by (simp_all add: unit_filter_def)
  have n: "nat (num_particles unit_filter) = 100" by (simp add: unit_filter_def)
  from resample_copies [OF pos, of 0 "\<lambda>i. 1 / 2"] nonneg idx unit_filter_inv
  obtain s' where s': "resample unit_filter 0 (\<lambda>i. 1 / 2) = Some (Inr s')"
    by blast
  with resample_copies [OF pos, of 0 "\<lambda>i. 1 / 2"] n
  have "set (particles s') \<subseteq> set (particles unit_filter) \<and> length (particles s') = 100"
    by auto
  with s' pos show ?thesis by blast
qed

section \<open>The population invariant\<close>

lemma size_invariant_reachable:
  "reachable s \<Longrightarrow> int (length (particles s)) = num_particles s \<and> num_particles s = 100 \<and> is_initialized s"
proof (induction rule: reachable.induct)
  case (reach_init x y theta std draws)
  then show ?case using init_new_filter by simp
next
  case (reach_init_again s x y theta std draws)
  then show ?case by (simp add: init_def)
next
  case (reach_prediction s delta_t std_pos velocity yaw_rate noise s')
  then show ?case
    using prediction_result [of s delta_t std_pos velocity yaw_rate noise] by auto
next
  case (reach_updateWeights s sensor_range std_landmark observations map_landmarks s')
  then show ?case
    using updateWeights_result [of s sensor_range std_landmark observations map_landmarks] by auto
next
  case (reach_resample s index0 wdraws s')
  then show ?case
    using resample_Some [of s index0 wdraws s'] by auto
qed

text \<open>
  Claim C2. In every state that a driver can reach, the population has
  \<^verbatim>\<open>num_particles\<close> elements, and that number is 100. From such a state
  \<^verbatim>\<open>prediction\<close> and \<^verbatim>\<open>updateWeights\<close> return a state with the same property, every
  state that \<^verbatim>\<open>resample\<close> returns has it, \<^verbatim>\<open>resample\<close> reads no vector out of range
  when its start index is within the population, and a further \<^verbatim>\<open>init\<close> keeps it.
  \<^verbatim>\<open>init\<close> on the new filter creates exactly 100 particles.
\<close>

theorem population_invariant:
  assumes "reachable s"
  shows "int (length (particles s)) = num_particles s \<and> num_particles s = 100 \<and>
         (\<exists>s'. prediction s delta_t std_pos velocity yaw_rate noise = Inr s' \<and>
               int (length (particles s')) = num_particles s' \<and> num_particles s' = 100) \<and>
         (\<exists>s'. updateWeights s sensor_range std_landmark observations map_landmarks = Inr s' \<and>
               int (length (particles s')) = num_particles s' \<and> num_particles s' = 100) \<and>
         (\<forall>s'. resample s index0 wdraws = Some (Inr s') \<longrightarrow>
               int (length (particles s')) = num_particles s' \<and> num_particles s' = 100) \<and>
         (0 \<le> index0 \<and> index0 < num_particles s \<longrightarrow> resample s index0 wdraws \<noteq> Some (Inl e)) \<and>
         int (length (particles (init s x y theta std draws))) =
           num_particles (init s x y theta std draws) \<and>
         num_particles (init s x y theta std draws) = 100 \<and>
         int (length (particles (init new_filter x y theta std draws))) = 100 \<and>
         num_particles (init new_filter x y theta std draws) = 100"
proof -
  note inv = size_invariant_reachable [OF assms]
  have p: "\<exists>s'. prediction s delta_t std_pos velocity yaw_rate noise = Inr s' \<and>
               int (length (particles s')) = num_particles s' \<and> num_particles s' = 100"
    using prediction_result [of s delta_t std_pos velocity yaw_rate noise] inv by auto
  have u: "\<exists>s'. updateWeights s sensor_range std_landmark observations map_landmarks = Inr s' \<and>
               int (length (particles s')) = num_particles s' \<and> num_particles s' = 100"
    using updateWeights_result [of s sensor_range std_landmark observations map_landmarks] inv by auto
  have r: "\<forall>s'. resample s index0 wdraws = Some (Inr s') \<longrightarrow>
               int (length (particles s')) = num_particles s' \<and> num_particles s' = 100"
    using resample_Some [of s index0 wdraws] inv by auto
  have n: "0 \<le> index0 \<and> index0 < num_particles s \<longrightarrow> resample s index0 wdraws \<noteq> Some (Inl e)"
    using resample_no_error [of s index0 wdraws e] inv by simp
  have i: "int (length (particles (init s x y theta std draws))) =
             num_particles (init s x y theta std draws) \<and>
           num_particles (init s x y theta std draws) = 100"
    using inv by (simp add: init_def)
  show ?thesis using inv p u r n i init_new_filter [of x y theta std draws] by simp
qed

theorem population_invariant_witness:
  "reachable (init new_filter 0 0 0 (1, 1, 1) (\<lambda>i. (0, 0, 0))) \<and>
   int (length (particles (init new_filter 0 0 0 (1, 1, 1) (\<lambda>i. (0, 0, 0))))) =
     num_particles (init new_filter 0 0 0 (1, 1, 1) (\<lambda>i. (0, 0, 0))) \<and>
   num_particles (init new_filter 0 0 0 (1, 1, 1) (\<lambda>i. (0, 0, 0))) = 100"
  using population_invariant [OF reach_init [of 0 0 0 "(1, 1, 1)" "\<lambda>i. (0, 0, 0)"]]
    reach_init [of 0 0 0 "(1, 1, 1)" "\<lambda>i. (0, 0, 0)"]
  by blast

section \<open>Properties of the diagnostic accessors\<close>

lemma concat_join_spaces:
  "v \<noteq> [] \<Longrightarrow> concat (map (\<lambda>a. f a @ '' '') v) = join_spaces (map f v) @ '' ''"
proof (induction v rule: list_nonempty_induct)
  case (single a)
  then show ?case by simp
next
  case (cons a v)
  then obtain b v' where "v = b # v'" by (cases v) auto
  with cons.IH show ?case by simp
qed

lemma trim_last_space: "trim_last (t @ '' '') = t"
  by (simp add: trim_last_def substr_def)

lemma trim_last_empty: "trim_last [] = []"
  by (simp add: trim_last_def substr_def)

lemma trim_last_stream: "trim_last (concat (map (\<lambda>a. f a @ '' '') v)) = join_spaces (map f v)"
proof (cases "v = []")
  case True
  then show ?thesis by (simp add: trim_last_empty)
next
  case False
  then show ?thesis by (simp add: concat_join_spaces trim_last_space)
qed

lemma getAssociations_join: "getAssociations best = join_spaces (map show_int (associations_p best))"
  by (simp add: getAssociations_def Let_def trim_last_stream)

lemma getSenseCoord_join:
  "getSenseCoord show_float best coord =
   join_spaces (map show_float (if coord = ''X'' then sense_x_p best else sense_y_p best))"
  by (simp add: getSenseCoord_def Let_def trim_last_stream)

lemma digit_char_not_space: "d < 10 \<Longrightarrow> digit_char d \<noteq> CHR '' ''"
proof -
  assume "d < 10"
  then have "digit_char d \<in> set ''0123456789''"
    unfolding digit_char_def by (intro nth_mem) simp
  then show ?thesis by auto
qed

lemma show_nat_last: "show_nat n \<noteq> [] \<and> last (show_nat n) \<noteq> CHR '' ''"
  by (subst (1 2) show_nat.simps) (simp add: digit_char_not_space)

lemma show_int_last: "show_int i \<noteq> [] \<and> last (show_int i) \<noteq> CHR '' ''"
  using show_nat_last by (simp add: show_int_def)

lemma join_spaces_last:
  "ts \<noteq> [] \<Longrightarrow> last ts \<noteq> [] \<Longrightarrow> join_spaces ts \<noteq> [] \<and> last (join_spaces ts) = last (last ts)"
proof (induction ts rule: list_nonempty_induct)
  case (single t)
  then show ?case by simp
next
  case (cons t ts)
  then obtain u us where "ts = u # us" by (cases ts) auto
  with cons show ?case by simp
qed

text \<open>
  Claim C8. \<^verbatim>\<open>getAssociations\<close> returns the associations as decimal numbers separated by
  single spaces, and \<^verbatim>\<open>getSenseCoord\<close> the printed elements of \<^verbatim>\<open>sense_x\<close> (for the
  coordinate \<^verbatim>\<open>"X"\<close>) or \<^verbatim>\<open>sense_y\<close> (for any other) separated by single spaces, with
  nothing after the last element. After \<^verbatim>\<open>SetAssociations(particle, a, sx, sy)\<close> the
  three outputs are those of \<open>a\<close>, \<open>sx\<close> and \<open>sy\<close>; for a non-empty \<open>a\<close> the text of
  the associations is not empty and does not end in a space.
\<close>

theorem rendering_space_separated:
  "getAssociations (SetAssociations particle a sx sy) = join_spaces (map show_int a) \<and>
   getSenseCoord show_float (SetAssociations particle a sx sy) ''X'' = join_spaces (map show_float sx) \<and>
   getSenseCoord show_float (SetAssociations particle a sx sy) ''Y'' = join_spaces (map show_float sy) \<and>
   (a \<noteq> [] \<longrightarrow>
      getAssociations (SetAssociations particle a sx sy) \<noteq> [] \<and>
      last (getAssociations (SetAssociations particle a sx sy)) \<noteq> CHR '' '') \<and>
   getAssociations best = join_spaces (map show_int (associations_p best)) \<and>
   getSenseCoord show_float best ''X'' = join_spaces (map show_float (sense_x_p best)) \<and>
   (coord \<noteq> ''X'' \<longrightarrow>
      getSenseCoord show_float best coord = join_spaces (map show_float (sense_y_p best)))"
proof -
  have "a \<noteq> [] \<longrightarrow>
      join_spaces (map show_int a) \<noteq> [] \<and> last (join_spaces (map show_int a)) \<noteq> CHR '' ''"
  proof
    assume a: "a \<noteq> []"
    then have "map show_int a \<noteq> []" "last (map show_int a) \<noteq> []"
      using show_int_last by (simp_all add: last_map)
    from join_spaces_last [OF this] a show
      "join_spaces (map show_int a) \<noteq> [] \<and> last (join_spaces (map show_int a)) \<noteq> CHR '' ''"
      using show_int_last by (simp add: last_map)
  qed
  then show ?thesis
    by (simp add: getAssociations_join getSenseCoord_join SetAssociations_def)
qed

theorem rendering_space_separated_witness:
  "[1, 22, - 3] \<noteq> ([] :: int list) \<and>
   getAssociations (SetAssociations unit_particle [1, 22, - 3] [] []) = ''1 22 -3'' \<and>
   last (getAssociations (SetAssociations unit_particle [1, 22, - 3] [] [])) \<noteq> CHR '' ''"
  using rendering_space_separated [where particle = unit_particle and a = "[1, 22, - 3]" and sx = "[]"
      and sy = "[]" and show_float = "\<lambda>v. []" and best = unit_particle and coord = "''Y''"]
  by (simp add: show_int_def show_nat.simps digit_char_def)

end
